theory Spec2Isabelle
  imports Main
begin

section \<open>Values handed over by the provider\<close>

text \<open>
  \<^verbatim>\<open>response.json()\<close> yields Python objects built from JSON: \<^verbatim>\<open>None\<close>, booleans,
  unbounded integers, strings, lists and dictionaries. Python's \<^verbatim>\<open>None\<close> is \<open>JNull\<close>
  throughout, so a missing key read with \<^verbatim>\<open>d.get(k)\<close> and a key holding \<^verbatim>\<open>null\<close> are
  the same value, as in the source. A dictionary is the list of its items, in order,
  with pairwise different keys. Text is a list of bytes (UTF-8). A JSON number with a
  fraction or an exponent is a Python float, a double.
\<close>

text \<open>
  A double. \<open>Finite neg m e\<close> is the number \<open>m * 2 ^ e\<close>, negative when \<open>neg\<close> holds:
  every finite double has this form, with \<open>m < 2 ^ 53\<close>, and so have zero and negative
  zero, with \<open>m = 0\<close>. Nothing below relies on the size of \<open>m\<close> or \<open>e\<close>. The decoder
  yields an infinity for a number too large for a double and for the literals
  \<^verbatim>\<open>Infinity\<close> and \<^verbatim>\<open>-Infinity\<close>, and the not-a-number for the literal \<^verbatim>\<open>NaN\<close>.
\<close>

datatype pyfloat = Finite bool nat int | Infinity bool | NaN

datatype json =
    JNull
  | JBool bool
  | JInt int
  | JFloat pyfloat
  | JStr string
  | JList "json list"
  | JObj "(string \<times> json) list"

text \<open>The exceptions the adapter's own statements can raise.\<close>

datatype py_error =
  AttributeError | TypeError | ValueError | KeyError | IndexError | OverflowError

text \<open>Sequencing of statements that may raise: the first exception ends the run.\<close>

definition bindE :: "'e + 'a \<Rightarrow> ('a \<Rightarrow> 'e + 'b) \<Rightarrow> 'e + 'b" where
  "bindE m f = (case m of Inl e \<Rightarrow> Inl e | Inr x \<Rightarrow> f x)"

text \<open>Truth value of an object, as \<^verbatim>\<open>if x\<close>, \<^verbatim>\<open>not x\<close>, \<^verbatim>\<open>x or y\<close> and \<^verbatim>\<open>x and y\<close> test it.\<close>

fun truthy :: "json \<Rightarrow> bool" where
  "truthy JNull = False"
| "truthy (JBool b) = b"
| "truthy (JInt n) = (n \<noteq> 0)"
| "truthy (JFloat f) = (case f of Finite neg m e \<Rightarrow> m \<noteq> 0 | _ \<Rightarrow> True)"
| "truthy (JStr s) = (s \<noteq> [])"
| "truthy (JList xs) = (xs \<noteq> [])"
| "truthy (JObj kv) = (kv \<noteq> [])"

text \<open>\<^verbatim>\<open>x or y\<close>.\<close>

definition py_or :: "json \<Rightarrow> json \<Rightarrow> json" where
  "py_or x y = (if truthy x then x else y)"

text \<open>
  \<^verbatim>\<open>x.get(key, default)\<close>: only a dictionary has the method; on anything else the
  attribute lookup raises.
\<close>

fun py_get :: "json \<Rightarrow> string \<Rightarrow> json \<Rightarrow> py_error + json" where
  "py_get (JObj kv) k d = Inr (case map_of kv k of Some v \<Rightarrow> v | None \<Rightarrow> d)"
| "py_get _ k d = Inl AttributeError"

text \<open>The integer \<open>m\<close> with the sign of a double.\<close>

definition signed :: "bool \<Rightarrow> nat \<Rightarrow> int" where
  "signed neg m = (if neg then - int m else int m)"

text \<open>
  A double against an integer and a double against a double, as \<^verbatim>\<open>==\<close> compares them:
  by their exact values, zero and negative zero being equal, an infinity equal to
  itself only, and the not-a-number equal to nothing.
\<close>

fun float_eq_int :: "pyfloat \<Rightarrow> int \<Rightarrow> bool" where
  "float_eq_int (Finite neg m e) i =
     (if 0 \<le> e then signed neg m * 2 ^ nat e = i else signed neg m = i * 2 ^ nat (- e))"
| "float_eq_int _ i = False"

fun float_eq :: "pyfloat \<Rightarrow> pyfloat \<Rightarrow> bool" where
  "float_eq (Finite n1 m1 e1) (Finite n2 m2 e2) =
     (if e1 \<le> e2 then signed n1 m1 = signed n2 m2 * 2 ^ nat (e2 - e1)
      else signed n1 m1 * 2 ^ nat (e1 - e2) = signed n2 m2)"
| "float_eq (Infinity a) (Infinity b) = (a = b)"
| "float_eq _ _ = False"

text \<open>
  \<^verbatim>\<open>x == y\<close>. Booleans compare as the integers 0 and 1, and integers and doubles by
  value; lists compare element by element; dictionaries are equal when they have the
  same number of items and every key of the first holds an equal value in the second.
  Inside a list or a dictionary an element is also equal to itself: every \<^verbatim>\<open>NaN\<close> of
  a decoded body is the one object \<^verbatim>\<open>json.decoder.NaN\<close>, so two of them are equal
  there, though not on their own.
\<close>

definition same_nan :: "json \<Rightarrow> json \<Rightarrow> bool" where
  "same_nan x y = (x = JFloat NaN \<and> y = JFloat NaN)"

fun py_eq :: "json \<Rightarrow> json \<Rightarrow> bool"
  and py_eq_list :: "json list \<Rightarrow> json list \<Rightarrow> bool"
  and py_eq_items :: "(string \<times> json) list \<Rightarrow> (string \<times> json) list \<Rightarrow> bool"
  and py_eq_lookup :: "json \<Rightarrow> string \<Rightarrow> (string \<times> json) list \<Rightarrow> bool" where
  "py_eq JNull y = (y = JNull)"
| "py_eq (JBool a) y =
     (case y of JBool b \<Rightarrow> a = b | JInt n \<Rightarrow> (if a then 1 else 0) = n
      | JFloat g \<Rightarrow> float_eq_int g (if a then 1 else 0) | _ \<Rightarrow> False)"
| "py_eq (JInt m) y =
     (case y of JBool b \<Rightarrow> m = (if b then 1 else 0) | JInt n \<Rightarrow> m = n
      | JFloat g \<Rightarrow> float_eq_int g m | _ \<Rightarrow> False)"
| "py_eq (JFloat f) y =
     (case y of JBool b \<Rightarrow> float_eq_int f (if b then 1 else 0) | JInt n \<Rightarrow> float_eq_int f n
      | JFloat g \<Rightarrow> float_eq f g | _ \<Rightarrow> False)"
| "py_eq (JStr s) y = (case y of JStr t \<Rightarrow> s = t | _ \<Rightarrow> False)"
| "py_eq (JList xs) (JList ys) = py_eq_list xs ys"
| "py_eq (JList xs) _ = False"
| "py_eq (JObj a) (JObj b) = (length a = length b \<and> py_eq_items a b)"
| "py_eq (JObj a) _ = False"
| "py_eq_list [] ys = (ys = [])"
| "py_eq_list (x # xs) [] = False"
| "py_eq_list (x # xs) (y # ys) = ((same_nan x y \<or> py_eq x y) \<and> py_eq_list xs ys)"
| "py_eq_items [] b = True"
| "py_eq_items ((k, v) # a) b = (py_eq_lookup v k b \<and> py_eq_items a b)"
| "py_eq_lookup v k [] = False"
| "py_eq_lookup v k ((k', v') # b) =
     (if k = k' then same_nan v v' \<or> py_eq v v' else py_eq_lookup v k b)"

section \<open>What the runtime and the libraries supply\<close>

text \<open>
  The request sent to the provider: \<^verbatim>\<open>requests.post(API_URL, params=..., json=...,
  headers=..., timeout=REQUEST_TIMEOUT)\<close>.
\<close>

record http_request =
  url :: string
  params :: "(string \<times> int) list"
  json_body :: "(string \<times> string) list"
  headers :: "(string \<times> string) list"
  timeout :: nat

text \<open>An error of pydantic's validation: the field it is about and what is wrong.\<close>

datatype verror =
    Extra_forbidden string
  | Invalid_type string
  | Too_small string
  | Too_large string

text \<open>
  The parts that are neither in the repository nor needed in detail are parameters:
  \<^item> \<open>http_post\<close>: the outcome of the POST with \<^verbatim>\<open>raise_for_status()\<close> and
    \<^verbatim>\<open>response.json()\<close>: the message of a \<^verbatim>\<open>requests.RequestException\<close>, or the
    decoded body;
  \<^item> \<open>component_html\<close>: the widget bundle \<^verbatim>\<open>_load_component_html()\<close> returns;
  \<^item> \<open>repr_body\<close>: the text between the brackets of \<^verbatim>\<open>str(x)\<close> for a list or a
    dictionary;
  \<^item> \<open>repr_digits\<close>: the text of \<^verbatim>\<open>str(x)\<close> for a finite double after its sign,
    given the \<open>m\<close> and \<open>e\<close> of the double: the shortest digits that read back as the
    same double, with the point or the exponent where \<^verbatim>\<open>repr\<close> puts them. The text
    is never empty, so it comes as its first character and the rest;
  \<^item> \<open>unicode_title\<close>: \<^verbatim>\<open>s.title()\<close> of a text with a character beyond ASCII, which
    follows the case tables of the Unicode database;
  \<^item> \<open>int_of_text\<close>: \<^verbatim>\<open>int(s)\<close> of a string;
  \<^item> \<open>lax_int\<close>: pydantic's conversion to an integer field of an input that is not an
    integer, \<open>None\<close> when it rejects the input;
  \<^item> \<open>errors_text\<close>: the text of \<^verbatim>\<open>exc.errors()\<close> in an f-string.
\<close>

record externals =
  http_post :: "http_request \<Rightarrow> string + json"
  component_html :: string
  repr_body :: "json \<Rightarrow> string"
  repr_digits :: "nat \<Rightarrow> int \<Rightarrow> char \<times> string"
  unicode_title :: "string \<Rightarrow> string"
  int_of_text :: "string \<Rightarrow> py_error + int"
  lax_int :: "json \<Rightarrow> int option"
  errors_text :: "verror list \<Rightarrow> string"

section \<open>Rendering numbers\<close>

definition digit_char :: "nat \<Rightarrow> char" where
  "digit_char d =
     (if d = 0 then CHR ''0'' else if d = 1 then CHR ''1'' else if d = 2 then CHR ''2''
      else if d = 3 then CHR ''3'' else if d = 4 then CHR ''4'' else if d = 5 then CHR ''5''
      else if d = 6 then CHR ''6'' else if d = 7 then CHR ''7'' else if d = 8 then CHR ''8''
      else CHR ''9'')"

text \<open>Decimal digits of a natural number, most significant first.\<close>

fun show_nat :: "nat \<Rightarrow> string" where
  "show_nat n = (if n < 10 then [digit_char n] else show_nat (n div 10) @ [digit_char (n mod 10)])"

declare show_nat.simps [simp del]

text \<open>\<^verbatim>\<open>str(n)\<close> of an integer.\<close>

definition show_int :: "int \<Rightarrow> string" where
  "show_int i = (if i < 0 then CHR ''-'' # show_nat (nat (- i)) else show_nat (nat i))"

text \<open>
  The thousands separator of the format specifications \<^verbatim>\<open>,\<close> and \<^verbatim>\<open>,.0f\<close>: a comma
  before every group of three digits, counted from the right. \<open>group3\<close> works on the
  digits in reverse.
\<close>

fun group3 :: "string \<Rightarrow> string" where
  "group3 (a # b # c # d # ds) = a # b # c # CHR '','' # group3 (d # ds)"
| "group3 ds = ds"

definition commas_nat :: "nat \<Rightarrow> string" where
  "commas_nat n = rev (group3 (rev (show_nat n)))"

definition commas :: "int \<Rightarrow> string" where
  "commas i = (if i < 0 then CHR ''-'' # commas_nat (nat (- i)) else commas_nat (nat i))"

text \<open>Number of binary digits of a natural number (\<^verbatim>\<open>int.bit_length\<close>).\<close>

fun bit_length :: "nat \<Rightarrow> nat" where
  "bit_length n = (if n = 0 then 0 else Suc (bit_length (n div 2)))"

declare bit_length.simps [simp del]

text \<open>
  The presentation type \<^verbatim>\<open>f\<close> first converts an integer to a double. The conversion
  keeps 53 significant bits, rounds to nearest with ties to even, and raises
  \<^verbatim>\<open>OverflowError\<close> when the rounded value reaches \<open>2 ^ 1024\<close>. Every double of that size
  is an integer, so the result is given as the integer it denotes.
\<close>

definition to_double :: "int \<Rightarrow> py_error + int" where
  "to_double n =
     (let a = nat \<bar>n\<bar>; bl = bit_length a in
      if bl \<le> 53 then Inr n
      else
        let k = bl - 53;
            q = a div 2 ^ k;
            r = a mod 2 ^ k;
            half = 2 ^ (k - 1);
            q' = (if half < r \<or> (r = half \<and> odd q) then q + 1 else q);
            m = q' * 2 ^ k
        in if 2 ^ 1024 \<le> m then Inl OverflowError
           else Inr (if n < 0 then - int m else int m))"

text \<open>
  The integer nearest to \<open>m * 2 ^ e\<close>, the even one of two that are equally near.
\<close>

definition round_even :: "nat \<Rightarrow> int \<Rightarrow> nat" where
  "round_even m e =
     (if 0 \<le> e then m * 2 ^ nat e
      else
        let d = 2 ^ nat (- e);
            q = m div d;
            r = m mod d
        in if d < 2 * r \<or> (2 * r = d \<and> odd q) then q + 1 else q)"

text \<open>
  A double in the format \<^verbatim>\<open>,.0f\<close>: its exact value rounded to the nearest integer, ties
  to even, after the sign of the double, which a zero keeps; \<^verbatim>\<open>inf\<close> and \<^verbatim>\<open>nan\<close> for
  the values that are no numbers.
\<close>

fun float_f0 :: "pyfloat \<Rightarrow> string" where
  "float_f0 (Finite neg m e) = (if neg then ''-'' else []) @ commas_nat (round_even m e)"
| "float_f0 (Infinity neg) = (if neg then ''-inf'' else ''inf'')"
| "float_f0 NaN = ''nan''"

text \<open>
  \<^verbatim>\<open>f"{x:,.0f}"\<close>. An integer is converted to a double first, and a double that is an
  integer prints as exactly that integer with no decimals. Booleans are integers; a
  string rejects the format code; \<^verbatim>\<open>None\<close>, lists and dictionaries reject any format
  specification.
\<close>

fun format_f0 :: "json \<Rightarrow> py_error + string" where
  "format_f0 (JInt n) = bindE (to_double n) (\<lambda>d. Inr (commas d))"
| "format_f0 (JFloat f) = Inr (float_f0 f)"
| "format_f0 (JBool b) = Inr (if b then ''1'' else ''0'')"
| "format_f0 (JStr s) = Inl ValueError"
| "format_f0 _ = Inl TypeError"

section \<open>Text operations\<close>

definition ascii_lowercase :: string where
  "ascii_lowercase = ''abcdefghijklmnopqrstuvwxyz''"

definition ascii_uppercase :: string where
  "ascii_uppercase = ''ABCDEFGHIJKLMNOPQRSTUVWXYZ''"

definition is_upper :: "char \<Rightarrow> bool" where
  "is_upper c = (c \<in> set ascii_uppercase)"

definition is_lower :: "char \<Rightarrow> bool" where
  "is_lower c = (c \<in> set ascii_lowercase)"

definition to_upper :: "char \<Rightarrow> char" where
  "to_upper c = (case map_of (zip ascii_lowercase ascii_uppercase) c of Some u \<Rightarrow> u | None \<Rightarrow> c)"

definition to_lower :: "char \<Rightarrow> char" where
  "to_lower c = (case map_of (zip ascii_uppercase ascii_lowercase) c of Some l \<Rightarrow> l | None \<Rightarrow> c)"

text \<open>
  \<^verbatim>\<open>str.title()\<close> of a text of ASCII characters: a letter that follows a letter is
  lowered, any other letter is raised.
\<close>

fun title_from :: "bool \<Rightarrow> string \<Rightarrow> string" where
  "title_from prev [] = []"
| "title_from prev (c # cs) =
     (if prev then to_lower c else to_upper c) # title_from (is_upper c \<or> is_lower c) cs"

text \<open>A byte of an ASCII character: the top bit is clear.\<close>

definition is_ascii :: "char \<Rightarrow> bool" where
  "is_ascii c = (\<not> digit7 c)"

text \<open>
  \<^verbatim>\<open>s.title()\<close>. With a character beyond ASCII in the text the result follows the
  Unicode tables, also for the ASCII letters next to it and depending on what comes
  after a letter, so the whole result is the runtime's.
\<close>

definition title_case :: "externals \<Rightarrow> string \<Rightarrow> string" where
  "title_case ext s = (if list_all is_ascii s then title_from False s else unicode_title ext s)"

text \<open>\<^verbatim>\<open>x.title()\<close> on an object: only strings have the method.\<close>

fun py_title :: "externals \<Rightarrow> json \<Rightarrow> py_error + string" where
  "py_title ext (JStr s) = Inr (title_case ext s)"
| "py_title ext _ = Inl AttributeError"

text \<open>The en dash U+2013 of the range format, in UTF-8.\<close>

definition en_dash :: string where
  "en_dash = [CHR 0xE2, CHR 0x80, CHR 0x93]"

section \<open>Salary formatter\<close>

text \<open>
  \<^verbatim>\<open>_format_salary\<close>, statement by statement. The salary type is read before the test
  for absent bounds, as in the source.
\<close>

definition format_salary :: "externals \<Rightarrow> json \<Rightarrow> py_error + string option" where
  "format_salary ext raw =
     (if \<not> truthy raw then Inr None
      else
        bindE (py_get raw ''minimum'' JNull) (\<lambda>minimum.
        bindE (py_get raw ''maximum'' JNull) (\<lambda>maximum.
        bindE (py_get raw ''type'' (JObj [])) (\<lambda>ty.
        bindE (py_get ty ''salaryType'' (JStr [])) (\<lambda>salary_type.
        if minimum = JNull \<and> maximum = JNull then Inr None
        else
          bindE
            (if truthy minimum \<and> truthy maximum \<and> \<not> py_eq minimum maximum
             then
               bindE (format_f0 minimum) (\<lambda>lo.
               bindE (format_f0 maximum) (\<lambda>hi.
               Inr (Some (''$'' @ lo @ '' '' @ en_dash @ '' $'' @ hi))))
             else
               (let v = (if minimum \<noteq> JNull then minimum else maximum)
                in if v \<noteq> JNull
                   then bindE (format_f0 v) (\<lambda>s. Inr (Some (''$'' @ s)))
                   else Inr None))
            (\<lambda>salary_range.
          case salary_range of
            None \<Rightarrow> Inr None
          | Some rng \<Rightarrow>
              if rng = [] then Inr None
              else
                bindE
                  (if truthy salary_type
                   then bindE (py_title ext salary_type) (\<lambda>t. Inr ('' '' @ t))
                   else Inr [])
                  (\<lambda>suffix. Inr (Some (rng @ suffix)))))))))"

section \<open>Conversions\<close>

text \<open>What a call can raise: an exception of the adapter's statements or of the request.\<close>

datatype failure = Python py_error | RequestException string

text \<open>\<^verbatim>\<open>str(x)\<close>.\<close>

fun py_str :: "externals \<Rightarrow> json \<Rightarrow> string" where
  "py_str ext JNull = ''None''"
| "py_str ext (JBool b) = (if b then ''True'' else ''False'')"
| "py_str ext (JInt n) = show_int n"
| "py_str ext (JFloat f) =
     (case f of
        Finite neg m e \<Rightarrow>
          (if neg then ''-'' else []) @ fst (repr_digits ext m e) # snd (repr_digits ext m e)
      | Infinity neg \<Rightarrow> (if neg then ''-inf'' else ''inf'')
      | NaN \<Rightarrow> ''nan'')"
| "py_str ext (JStr s) = s"
| "py_str ext (JList xs) = ''['' @ repr_body ext (JList xs) @ '']''"
| "py_str ext (JObj kv) = ''{'' @ repr_body ext (JObj kv) @ ''}''"

text \<open>
  \<^verbatim>\<open>int(x)\<close>. A finite double is cut to its integer part; an infinity and the
  not-a-number have none.
\<close>

fun py_int :: "externals \<Rightarrow> json \<Rightarrow> py_error + int" where
  "py_int ext (JInt n) = Inr n"
| "py_int ext (JFloat f) =
     (case f of
        Finite neg m e \<Rightarrow>
          Inr (signed neg (if 0 \<le> e then m * 2 ^ nat e else m div 2 ^ nat (- e)))
      | Infinity neg \<Rightarrow> Inl OverflowError
      | NaN \<Rightarrow> Inl ValueError)"
| "py_int ext (JBool b) = Inr (if b then 1 else 0)"
| "py_int ext (JStr s) = int_of_text ext s"
| "py_int ext _ = Inl TypeError"

text \<open>
  \<^verbatim>\<open>for x in v\<close>: a list gives its elements, a string its characters, a dictionary its
  keys; nothing else can be iterated.
\<close>

fun py_iter :: "json \<Rightarrow> py_error + json list" where
  "py_iter (JList xs) = Inr xs"
| "py_iter (JStr s) = Inr (map (\<lambda>c. JStr [c]) s)"
| "py_iter (JObj kv) = Inr (map (\<lambda>(k, v). JStr k) kv)"
| "py_iter _ = Inl TypeError"

text \<open>
  \<^verbatim>\<open>v[0]\<close> of a non-empty value: the keys of a decoded dictionary are strings, so the
  key \<open>0\<close> is never there; integers and booleans cannot be subscripted.
\<close>

fun py_first :: "json \<Rightarrow> py_error + json" where
  "py_first (JList (x # xs)) = Inr x"
| "py_first (JList []) = Inl IndexError"
| "py_first (JStr s) = (if s = [] then Inl IndexError else Inr (JStr (take 1 s)))"
| "py_first (JObj kv) = Inl KeyError"
| "py_first _ = Inl TypeError"

section \<open>Whitespace\<close>

text \<open>
  The characters \<^verbatim>\<open>str.strip()\<close> removes, each as its UTF-8 bytes: the ASCII controls
  and the space, U+0085, U+00A0, U+1680, U+2000 to U+200A, U+2028, U+2029, U+202F,
  U+205F and U+3000.
\<close>

definition whitespace :: "string list" where
  "whitespace =
     [[CHR 0x09], [CHR 0x0A], [CHR 0x0B], [CHR 0x0C], [CHR 0x0D],
      [CHR 0x1C], [CHR 0x1D], [CHR 0x1E], [CHR 0x1F], [CHR 0x20],
      [CHR 0xC2, CHR 0x85], [CHR 0xC2, CHR 0xA0],
      [CHR 0xE1, CHR 0x9A, CHR 0x80],
      [CHR 0xE2, CHR 0x80, CHR 0x80], [CHR 0xE2, CHR 0x80, CHR 0x81],
      [CHR 0xE2, CHR 0x80, CHR 0x82], [CHR 0xE2, CHR 0x80, CHR 0x83],
      [CHR 0xE2, CHR 0x80, CHR 0x84], [CHR 0xE2, CHR 0x80, CHR 0x85],
      [CHR 0xE2, CHR 0x80, CHR 0x86], [CHR 0xE2, CHR 0x80, CHR 0x87],
      [CHR 0xE2, CHR 0x80, CHR 0x88], [CHR 0xE2, CHR 0x80, CHR 0x89],
      [CHR 0xE2, CHR 0x80, CHR 0x8A],
      [CHR 0xE2, CHR 0x80, CHR 0xA8], [CHR 0xE2, CHR 0x80, CHR 0xA9],
      [CHR 0xE2, CHR 0x80, CHR 0xAF],
      [CHR 0xE2, CHR 0x81, CHR 0x9F],
      [CHR 0xE3, CHR 0x80, CHR 0x80]]"

text \<open>The first of the sequences \<open>ws\<close> that the text starts with, if any.\<close>

definition leading :: "string list \<Rightarrow> string \<Rightarrow> string option" where
  "leading ws s = find (\<lambda>w. w \<noteq> [] \<and> take (length w) s = w) ws"

text \<open>Dropping sequences of \<open>ws\<close> from the front for as long as there is one.\<close>

function strip_front :: "string list \<Rightarrow> string \<Rightarrow> string" where
  "strip_front ws s =
     (case leading ws s of None \<Rightarrow> s | Some w \<Rightarrow> strip_front ws (drop (length w) s))"
  by pat_completeness auto
termination
proof (relation "measure (\<lambda>(ws, s). length s)")
  show "wf (measure (\<lambda>(ws, s). length s))" by simp
next
  fix ws :: "string list" and s w :: string
  assume "leading ws s = Some w"
  then have "w \<noteq> []" and "take (length w) s = w"
    by (auto simp: leading_def find_Some_iff)
  then have "s \<noteq> []" and "0 < length w"
    by auto
  then show "((ws, drop (length w) s), (ws, s)) \<in> measure (\<lambda>(ws, s). length s)"
    by simp
qed

declare strip_front.simps [simp del]

definition lstrip :: "string \<Rightarrow> string" where
  "lstrip s = strip_front whitespace s"

definition rstrip :: "string \<Rightarrow> string" where
  "rstrip s = rev (strip_front (map rev whitespace) (rev s))"

text \<open>\<^verbatim>\<open>s.strip()\<close>.\<close>

definition strip :: "string \<Rightarrow> string" where
  "strip s = rstrip (lstrip s)"

section \<open>Postings and search results\<close>

text \<open>
  The dataclasses of the source. The optional fields hold whatever the provider sent
  (\<open>JNull\<close> for \<^verbatim>\<open>None\<close>): a dataclass does not check the annotated types. The field
  \<^verbatim>\<open>id\<close> is \<open>id_str\<close> here.
\<close>

record JobPosting =
  id_str :: string
  title :: string
  company :: json
  job_url :: json
  salary :: "string option"
  location :: json
  region :: json
  categories :: "string list"
  employment_types :: "string list"
  skills :: "string list"
  updated_at :: json
  posted_at :: json
  score :: json
  lat :: json
  lng :: json

record JobSearchResult =
  search_term :: string
  total :: int
  jobs :: "JobPosting list"

text \<open>
  \<^verbatim>\<open>JobSearchInput\<close> once validated; its field \<^verbatim>\<open>search_term\<close> is \<open>search_term_in\<close>
  here.
\<close>

record JobSearchInput =
  search_term_in :: "string option"
  limit :: int
  page :: int

definition API_URL :: string where
  "API_URL = ''https://api.mycareersfuture.gov.sg/v2/search''"

definition DEFAULT_LIMIT :: int where
  "DEFAULT_LIMIT = 20"

definition DEFAULT_PAGE :: int where
  "DEFAULT_PAGE = 0"

definition REQUEST_TIMEOUT :: nat where
  "REQUEST_TIMEOUT = 12"

definition TOOL_NAME :: string where
  "TOOL_NAME = ''mycf-job-list''"

section \<open>Posting normalizer\<close>

text \<open>
  The comprehension \<^verbatim>\<open>[str(c.get(key)) for c in cs if c and c.get(key)]\<close>. The source
  reads \<^verbatim>\<open>c.get(key)\<close> twice with the same result; it is read once here.
\<close>

fun names_of :: "externals \<Rightarrow> string \<Rightarrow> json list \<Rightarrow> py_error + string list" where
  "names_of ext key [] = Inr []"
| "names_of ext key (c # cs) =
     (if \<not> truthy c then names_of ext key cs
      else
        bindE (py_get c key JNull) (\<lambda>v.
        if \<not> truthy v then names_of ext key cs
        else bindE (names_of ext key cs) (\<lambda>rest. Inr (py_str ext v # rest))))"

text \<open>
  The argument of \<^verbatim>\<open>str\<close> for the id:
  \<^verbatim>\<open>metadata.get("jobPostId") or item.get("uuid") or len(postings)\<close>.
\<close>

definition ident_of :: "json \<Rightarrow> json \<Rightarrow> nat \<Rightarrow> py_error + json" where
  "ident_of metadata item n =
     bindE (py_get metadata ''jobPostId'' JNull) (\<lambda>job_post_id.
     if truthy job_post_id then Inr job_post_id
     else bindE (py_get item ''uuid'' JNull) (\<lambda>uuid. Inr (py_or uuid (JInt (int n)))))"

text \<open>
  The location:
  \<^verbatim>\<open>address.get("street") or primary_district.get("location") or address.get("district")\<close>.
\<close>

definition location_of :: "json \<Rightarrow> json \<Rightarrow> py_error + json" where
  "location_of address primary_district =
     bindE (py_get address ''street'' JNull) (\<lambda>street.
     if truthy street then Inr street
     else
       bindE (py_get primary_district ''location'' JNull) (\<lambda>loc.
       if truthy loc then Inr loc else py_get address ''district'' JNull))"

text \<open>
  The body of the loop of \<^verbatim>\<open>_request_jobs\<close> for one item, \<open>n\<close> being
  \<^verbatim>\<open>len(postings)\<close> when the item is reached. The statements and the arguments of the
  constructor are evaluated in the order of the source.
\<close>

definition normalize_item :: "externals \<Rightarrow> json \<Rightarrow> nat \<Rightarrow> py_error + JobPosting" where
  "normalize_item ext item n =
     bindE (py_get item ''metadata'' (JObj [])) (\<lambda>md.
     bindE (py_get item ''postedCompany'' JNull) (\<lambda>pc.
     bindE (py_get item ''address'' JNull) (\<lambda>ad.
     let metadata = py_or md (JObj []);
         posted_company = py_or pc (JObj []);
         address = py_or ad (JObj [])
     in
     bindE (py_get item ''categories'' (JList [])) (\<lambda>cats.
     bindE (py_iter cats) (\<lambda>cats.
     bindE (names_of ext ''category'' cats) (\<lambda>categories.
     bindE (py_get item ''employmentTypes'' (JList [])) (\<lambda>emps.
     bindE (py_iter emps) (\<lambda>emps.
     bindE (names_of ext ''employmentType'' emps) (\<lambda>employment_types.
     bindE (py_get item ''skills'' (JList [])) (\<lambda>sks.
     bindE (py_iter sks) (\<lambda>sks.
     bindE (names_of ext ''skill'' sks) (\<lambda>skills.
     bindE (py_get address ''districts'' JNull) (\<lambda>ds.
     let districts = py_or ds (JList []) in
     bindE (if truthy districts then py_first districts else Inr (JObj [])) (\<lambda>primary_district.
     bindE (location_of address primary_district) (\<lambda>location.
     bindE (py_get item ''salary'' JNull) (\<lambda>raw_salary.
     bindE (format_salary ext raw_salary) (\<lambda>salary.
     bindE (ident_of metadata item n) (\<lambda>ident.
     bindE (py_get item ''title'' JNull) (\<lambda>ttl.
     bindE (py_get posted_company ''name'' JNull) (\<lambda>name.
     bindE (py_get metadata ''jobDetailsUrl'' JNull) (\<lambda>details_url.
     bindE (py_get primary_district ''region'' JNull) (\<lambda>rgn.
     bindE (py_get metadata ''updatedAt'' JNull) (\<lambda>updated.
     bindE (py_get metadata ''newPostingDate'' JNull) (\<lambda>posted.
     bindE (py_get item ''score'' JNull) (\<lambda>sc.
     bindE (py_get address ''lat'' JNull) (\<lambda>la.
     bindE (py_get address ''lng'' JNull) (\<lambda>ln.
     Inr \<lparr>id_str = py_str ext ident,
          title = py_str ext (py_or ttl (JStr ''Untitled role'')),
          company = name,
          job_url = details_url,
          salary = salary,
          location = location,
          region = rgn,
          categories = categories,
          employment_types = employment_types,
          skills = skills,
          updated_at = updated,
          posted_at = posted,
          score = sc,
          lat = la,
          lng = ln\<rparr>)))))))))))))))))))))))))))"

text \<open>The loop: postings are appended in the order of the items; an exception ends it.\<close>

fun normalize_all ::
  "externals \<Rightarrow> json list \<Rightarrow> JobPosting list \<Rightarrow> py_error + JobPosting list" where
  "normalize_all ext [] postings = Inr postings"
| "normalize_all ext (item # items) postings =
     bindE (normalize_item ext item (length postings)) (\<lambda>p.
     normalize_all ext items (postings @ [p]))"

section \<open>Search client\<close>

text \<open>
  The effective term:
  \<^verbatim>\<open>(payload.search_term or "software engineer").strip() or "software engineer"\<close>.
\<close>

definition effective_term :: "string option \<Rightarrow> string" where
  "effective_term st =
     (let s = (case st of None \<Rightarrow> ''software engineer''
                        | Some t \<Rightarrow> if t = [] then ''software engineer'' else t);
          stripped = strip s
      in if stripped = [] then ''software engineer'' else stripped)"

text \<open>The one request a search sends.\<close>

definition request_of :: "JobSearchInput \<Rightarrow> http_request" where
  "request_of payload =
     \<lparr>url = API_URL,
      params = [(''limit'', limit payload), (''page'', page payload)],
      json_body = [(''search'', effective_term (search_term_in payload))],
      headers = [(''Content-Type'', ''application/json''),
                 (''Accept'', ''application/json''),
                 (''User-Agent'', ''openai-apps-sdk-examples/1.0'')],
      timeout = REQUEST_TIMEOUT\<rparr>"

definition lift_py :: "py_error + 'a \<Rightarrow> failure + 'a" where
  "lift_py m = (case m of Inl e \<Rightarrow> Inl (Python e) | Inr x \<Rightarrow> Inr x)"

text \<open>
  What \<^verbatim>\<open>_request_jobs\<close> does with the decoded body: the results are normalized, then
  the total is read.
\<close>

definition result_of_body :: "externals \<Rightarrow> string \<Rightarrow> json \<Rightarrow> py_error + JobSearchResult" where
  "result_of_body ext term data =
     bindE (py_get data ''results'' (JList [])) (\<lambda>rs.
     let raw_results = py_or rs (JList []) in
     bindE (py_iter raw_results) (\<lambda>items.
     bindE (normalize_all ext items []) (\<lambda>postings.
     bindE (py_get data ''total'' JNull) (\<lambda>tot.
     bindE (py_int ext (py_or tot (JInt (int (length postings))))) (\<lambda>total_results.
     Inr \<lparr>search_term = term, total = total_results, jobs = postings\<rparr>)))))"

text \<open>
  \<^verbatim>\<open>_request_jobs\<close>: a failed request is raised again; the log lines are left out.
\<close>

definition request_jobs :: "externals \<Rightarrow> JobSearchInput \<Rightarrow> failure + JobSearchResult" where
  "request_jobs ext payload =
     (case http_post ext (request_of payload) of
        Inl msg \<Rightarrow> Inl (RequestException msg)
      | Inr data \<Rightarrow>
          lift_py (result_of_body ext (effective_term (search_term_in payload)) data))"

section \<open>Input validation\<close>

text \<open>
  \<^verbatim>\<open>JobSearchInput.model_validate(arguments)\<close>, from the declaration of the model: the
  three fields with their aliases, defaults and bounds, \<^verbatim>\<open>populate_by_name\<close> (the field
  name is read when the alias is missing) and \<^verbatim>\<open>extra="forbid"\<close>. Every error is
  collected, the fields first in the order of the declaration, then the keys that no
  field has read.
\<close>

definition validate_search_term ::
  "(string \<times> json) list \<Rightarrow> verror list \<times> string option \<times> string list" where
  "validate_search_term args =
     (case map_of args ''searchTerm'' of
        Some v \<Rightarrow>
          (case v of
             JNull \<Rightarrow> ([], None, [''searchTerm''])
           | JStr s \<Rightarrow> ([], Some s, [''searchTerm''])
           | _ \<Rightarrow> ([Invalid_type ''searchTerm''], None, [''searchTerm'']))
      | None \<Rightarrow>
          (case map_of args ''search_term'' of
             Some v \<Rightarrow>
               (case v of
                  JNull \<Rightarrow> ([], None, [''search_term''])
                | JStr s \<Rightarrow> ([], Some s, [''search_term''])
                | _ \<Rightarrow> ([Invalid_type ''search_term''], None, [''search_term'']))
           | None \<Rightarrow> ([], Some ''software engineer'', [])))"

definition validate_int ::
  "externals \<Rightarrow> (string \<times> json) list \<Rightarrow> string \<Rightarrow> int \<Rightarrow> int \<Rightarrow> int \<Rightarrow> verror list \<times> int" where
  "validate_int ext args key dflt lo hi =
     (case map_of args key of
        None \<Rightarrow> ([], dflt)
      | Some v \<Rightarrow>
          (case (case v of JInt n \<Rightarrow> Some n | _ \<Rightarrow> lax_int ext v) of
             None \<Rightarrow> ([Invalid_type key], dflt)
           | Some n \<Rightarrow>
               if n < lo then ([Too_small key], dflt)
               else if hi < n then ([Too_large key], dflt)
               else ([], n)))"

definition model_validate ::
  "externals \<Rightarrow> (string \<times> json) list \<Rightarrow> verror list + JobSearchInput" where
  "model_validate ext args =
     (let (e1, st, used) = validate_search_term args;
          (e2, lim) = validate_int ext args ''limit'' DEFAULT_LIMIT 1 50;
          (e3, pg) = validate_int ext args ''page'' DEFAULT_PAGE 0 50;
          extra = filter (\<lambda>k. k \<notin> set (used @ [''limit'', ''page''])) (map fst args);
          errs = e1 @ e2 @ e3 @ map Extra_forbidden extra
      in if errs = [] then Inr \<lparr>search_term_in = st, limit = lim, page = pg\<rparr>
         else Inl errs)"

section \<open>Tool adapter\<close>

record CallToolRequest =
  name :: string
  arguments :: "(string \<times> json) list option"

datatype content = TextContent string | EmbeddedResource string

text \<open>
  \<^verbatim>\<open>structuredContent\<close> is the search result: \<^verbatim>\<open>to_structured\<close> only renames fields.
\<close>

record CallToolResult =
  content :: "content list"
  structuredContent :: "JobSearchResult option"
  isError :: bool

definition text_summary :: "JobSearchResult \<Rightarrow> string" where
  "text_summary result =
     (if jobs result \<noteq> []
      then ''Found '' @ commas (total result) @ '' jobs for '' @ [CHR 0x27]
           @ search_term result @ [CHR 0x27] @ ''. Showing top ''
           @ show_nat (length (jobs result)) @ '' results in the carousel.''
      else ''No jobs found for '' @ [CHR 0x27] @ search_term result @ [CHR 0x27]
           @ ''. Try a broader search.'')"

text \<open>
  \<^verbatim>\<open>_call_tool_request\<close>. The first component is the list of requests sent to the
  provider. Only a \<^verbatim>\<open>requests.RequestException\<close> is caught; any other exception leaves
  the handler.
\<close>

definition call_tool_request ::
  "externals \<Rightarrow> CallToolRequest \<Rightarrow> http_request list \<times> (py_error + CallToolResult)" where
  "call_tool_request ext req =
     (if name req \<noteq> TOOL_NAME
      then ([], Inr \<lparr>content = [TextContent (''Unknown tool: '' @ name req)],
                     structuredContent = None, isError = True\<rparr>)
      else
        let args = (case arguments req of None \<Rightarrow> [] | Some kv \<Rightarrow> kv) in
        case model_validate ext args of
          Inl errs \<Rightarrow>
            ([], Inr \<lparr>content = [TextContent (''Input validation error: '' @ errors_text ext errs)],
                      structuredContent = None, isError = True\<rparr>)
        | Inr payload \<Rightarrow>
            (case request_jobs ext payload of
               Inl (RequestException msg) \<Rightarrow>
                 ([request_of payload],
                  Inr \<lparr>content = [TextContent (''Unable to fetch jobs from MyCareersFuture: '' @ msg)],
                       structuredContent = None, isError = True\<rparr>)
             | Inl (Python e) \<Rightarrow> ([request_of payload], Inl e)
             | Inr result \<Rightarrow>
                 ([request_of payload],
                  Inr \<lparr>content = [EmbeddedResource (component_html ext),
                                  TextContent (text_summary result)],
                       structuredContent = Some result, isError = False\<rparr>)))"

section \<open>Notions used in the statements\<close>

text \<open>The value under a key, \<open>JNull\<close> when the key is missing or the object has no keys.\<close>

definition bound :: "json \<Rightarrow> string \<Rightarrow> json" where
  "bound raw k = (case py_get raw k JNull of Inr v \<Rightarrow> v | Inl e \<Rightarrow> JNull)"

text \<open>
  The salary type of a record whose \<^verbatim>\<open>type\<close> is missing or an object and whose
  \<^verbatim>\<open>salaryType\<close> is missing, null or a string: that string, empty when there is none.
  \<open>None\<close> for every other record.
\<close>

definition salary_type_of :: "json \<Rightarrow> string option" where
  "salary_type_of raw =
     (case py_get raw ''type'' (JObj []) of
        Inr (JObj t) \<Rightarrow>
          (case map_of t ''salaryType'' of
             None \<Rightarrow> Some []
           | Some JNull \<Rightarrow> Some []
           | Some (JStr s) \<Rightarrow> Some s
           | Some _ \<Rightarrow> None)
      | _ \<Rightarrow> None)"

text \<open>The suffix for a salary type: nothing, or a space and the type in title case.\<close>

definition suffix_of :: "externals \<Rightarrow> string \<Rightarrow> string" where
  "suffix_of ext t = (if t = [] then [] else '' '' @ title_case ext t)"

text \<open>
  A number other than zero that the format takes as it is: an integer below \<open>2 ^ 53\<close> in
  magnitude, which its double holds exactly, or a finite double.
\<close>

definition plain_number :: "json \<Rightarrow> bool" where
  "plain_number v =
     (case v of
        JInt a \<Rightarrow> a \<noteq> 0 \<and> \<bar>a\<bar> < 2 ^ 53
      | JFloat f \<Rightarrow> (case f of Finite neg m e \<Rightarrow> m \<noteq> 0 | _ \<Rightarrow> False)
      | _ \<Rightarrow> False)"

text \<open>
  Such a number with thousands separators and no decimals: the integer itself, or the
  integer nearest to the double, the even one of two, after the sign of the double.
\<close>

definition grouped :: "json \<Rightarrow> string" where
  "grouped v =
     (case v of
        JInt a \<Rightarrow> commas a
      | JFloat f \<Rightarrow>
          (case f of
             Finite neg m e \<Rightarrow> (if neg then ''-'' else []) @ commas_nat (round_even m e)
           | _ \<Rightarrow> [])
      | _ \<Rightarrow> [])"

text \<open>
  The identifier the provider supplied with an item: the job-post id of its metadata,
  else its UUID, when one of them is there and true.
\<close>

definition provider_ident :: "json \<Rightarrow> json option" where
  "provider_ident item =
     (let metadata = py_or (bound item ''metadata'') (JObj []);
          job_post_id = bound metadata ''jobPostId'';
          uuid = bound item ''uuid''
      in if truthy job_post_id then Some job_post_id
         else if truthy uuid then Some uuid
         else None)"

text \<open>The text of the identifiers supplied with a list of items, \<open>None\<close> where there is none.\<close>

definition provider_ids :: "externals \<Rightarrow> json list \<Rightarrow> string option list" where
  "provider_ids ext items = map (\<lambda>item. map_option (py_str ext) (provider_ident item)) items"

text \<open>The identifiers supplied with a list of items.\<close>

definition supplied_ids :: "externals \<Rightarrow> json list \<Rightarrow> string list" where
  "supplied_ids ext items = List.map_filter (\<lambda>x. x) (provider_ids ext items)"

text \<open>
  No item without a supplied identifier has its position, in decimal, among the supplied
  identifiers.
\<close>

definition positions_free :: "externals \<Rightarrow> json list \<Rightarrow> bool" where
  "positions_free ext items =
     list_all (\<lambda>(i, x). x = None \<longrightarrow> show_nat i \<notin> set (supplied_ids ext items))
       (zip [0..<length items] (provider_ids ext items))"

text \<open>
  Arguments of the tool: an integer field that is missing or inside its bounds, an
  integer field outside its bounds, a search term that is missing, null or a string,
  and the presence of a key that is no field of the input.
\<close>

definition int_field_within :: "(string \<times> json) list \<Rightarrow> string \<Rightarrow> int \<Rightarrow> int \<Rightarrow> bool" where
  "int_field_within args key lo hi =
     (case map_of args key of
        None \<Rightarrow> True
      | Some (JInt n) \<Rightarrow> lo \<le> n \<and> n \<le> hi
      | Some _ \<Rightarrow> False)"

definition int_field_outside :: "(string \<times> json) list \<Rightarrow> string \<Rightarrow> int \<Rightarrow> int \<Rightarrow> bool" where
  "int_field_outside args key lo hi =
     (case map_of args key of
        Some (JInt n) \<Rightarrow> n < lo \<or> hi < n
      | _ \<Rightarrow> False)"

definition search_term_typed :: "(string \<times> json) list \<Rightarrow> bool" where
  "search_term_typed args =
     (case map_of args ''searchTerm'' of
        None \<Rightarrow> True
      | Some JNull \<Rightarrow> True
      | Some (JStr s) \<Rightarrow> True
      | Some _ \<Rightarrow> False)"

definition unknown_field :: "(string \<times> json) list \<Rightarrow> bool" where
  "unknown_field args =
     list_ex (\<lambda>k. k \<notin> set [''searchTerm'', ''search_term'', ''limit'', ''page'']) (map fst args)"

text \<open>The arguments of a request: \<^verbatim>\<open>req.params.arguments or {}\<close>.\<close>

definition arguments_of :: "CallToolRequest \<Rightarrow> (string \<times> json) list" where
  "arguments_of req = (case arguments req of None \<Rightarrow> [] | Some kv \<Rightarrow> kv)"

text \<open>The response to arguments that fail validation with the errors \<open>errs\<close>.\<close>

definition validation_error_result :: "externals \<Rightarrow> verror list \<Rightarrow> CallToolResult" where
  "validation_error_result ext errs =
     \<lparr>content = [TextContent (''Input validation error: '' @ errors_text ext errs)],
      structuredContent = None, isError = True\<rparr>"

text \<open>
  A text made of whitespace only: a sequence of the characters \<^verbatim>\<open>strip\<close> removes.
\<close>

definition whitespace_only :: "string \<Rightarrow> bool" where
  "whitespace_only s = (\<exists>ws. set ws \<subseteq> set whitespace \<and> s = concat ws)"

text \<open>
  No sequence of the list is empty, and none is the beginning of another one: text that
  starts with one of them starts with no other.
\<close>

definition prefix_free :: "string list \<Rightarrow> bool" where
  "prefix_free ws =
     list_all (\<lambda>w. w \<noteq> [] \<and> list_all (\<lambda>w'. take (length w) w' = w \<longrightarrow> w' = w) ws) ws"

section \<open>Sample data\<close>

text \<open>A provider that answers every request with the same body.\<close>

definition provider_answering :: "json \<Rightarrow> externals" where
  "provider_answering data =
     \<lparr>http_post = (\<lambda>r. Inr data),
      component_html = ''<html></html>'',
      repr_body = (\<lambda>v. ''...''),
      repr_digits = (\<lambda>m e. (CHR ''0'', ''.0'')),
      unicode_title = (\<lambda>s. s),
      int_of_text = (\<lambda>s. Inl ValueError),
      lax_int = (\<lambda>v. None),
      errors_text = (\<lambda>es. ''[...]'')\<rparr>"

definition three_results :: json where
  "three_results =
     JObj [(''results'',
            JList [JObj [(''uuid'', JStr ''a1''), (''title'', JStr ''Engineer'')],
                   JObj [(''uuid'', JStr ''b2''), (''title'', JStr ''Analyst'')],
                   JObj [(''uuid'', JStr ''c3'')]]),
           (''total'', JInt 150)]"

text \<open>The posting of an item that has nothing but an identifier and a title.\<close>

definition bare_posting :: "string \<Rightarrow> string \<Rightarrow> JobPosting" where
  "bare_posting ident ttl =
     \<lparr>id_str = ident, title = ttl, company = JNull, job_url = JNull, salary = None,
      location = JNull, region = JNull, categories = [], employment_types = [], skills = [],
      updated_at = JNull, posted_at = JNull, score = JNull, lat = JNull, lng = JNull\<rparr>"

text \<open>The input with every default.\<close>

definition default_input :: JobSearchInput where
  "default_input = \<lparr>search_term_in = Some ''software engineer'', limit = 20, page = 0\<rparr>"

text \<open>A body that reports no result and carries one.\<close>

definition zero_total :: json where
  "zero_total = JObj [(''results'', JList [JObj []]), (''total'', JInt 0)]"

text \<open>Items with and without an identifier.\<close>

definition mixed_items :: "json list" where
  "mixed_items = [JObj [(''uuid'', JStr ''a1'')], JObj [], JObj [(''uuid'', JStr ''c3'')]]"

definition colliding_items :: "json list" where
  "colliding_items = [JObj [(''uuid'', JStr ''1'')], JObj []]"

text \<open>A body with one item whose \<^verbatim>\<open>categories\<close> is null.\<close>

definition null_categories :: json where
  "null_categories =
     JObj [(''results'', JList [JObj [(''uuid'', JStr ''a1''), (''categories'', JNull)]])]"

section \<open>Basic facts\<close>

lemma bindE_Inl [simp]: "bindE (Inl e) f = Inl e"
  by (simp add: bindE_def)

lemma bindE_Inr [simp]: "bindE (Inr x) f = f x"
  by (simp add: bindE_def)

lemma bindE_eq_Inr: "bindE m f = Inr y \<longleftrightarrow> (\<exists>x. m = Inr x \<and> f x = Inr y)"
  by (cases m) simp_all

lemma bindE_InrE:
  assumes "bindE m f = Inr y"
  obtains x where "m = Inr x" and "f x = Inr y"
  using assms by (auto simp: bindE_eq_Inr)

lemma digit_char_code:
  assumes "d < 10"
  shows "(of_char (digit_char d) :: nat) = 48 + d"
proof -
  from assms have "d = 0 \<or> d = 1 \<or> d = 2 \<or> d = 3 \<or> d = 4 \<or> d = 5 \<or> d = 6 \<or> d = 7 \<or> d = 8 \<or> d = 9"
    by arith
  then show ?thesis
    by (elim disjE) (simp_all add: digit_char_def)
qed

lemma digit_char_inj:
  assumes "a < 10" "b < 10" "digit_char a = digit_char b"
  shows "a = b"
proof -
  have "48 + a = (of_char (digit_char a) :: nat)"
    using assms(1) by (simp add: digit_char_code)
  also have "\<dots> = 48 + b"
    using assms(2,3) by (simp add: digit_char_code)
  finally show ?thesis by simp
qed

lemma show_nat_small: "n < 10 \<Longrightarrow> show_nat n = [digit_char n]"
  by (subst show_nat.simps) simp

lemma show_nat_large: "\<not> n < 10 \<Longrightarrow> show_nat n = show_nat (n div 10) @ [digit_char (n mod 10)]"
  by (subst show_nat.simps) simp

lemma show_nat_nonempty: "show_nat n \<noteq> []"
  by (subst show_nat.simps) simp

lemma show_nat_length_large:
  assumes "\<not> n < 10"
  shows "2 \<le> length (show_nat n)"
proof -
  have "show_nat n = show_nat (n div 10) @ [digit_char (n mod 10)]"
    using assms by (rule show_nat_large)
  then have "length (show_nat n) = Suc (length (show_nat (n div 10)))"
    by simp
  moreover have "show_nat (n div 10) \<noteq> []"
    by (rule show_nat_nonempty)
  ultimately show ?thesis
    by (cases "show_nat (n div 10)") simp_all
qed


lemma show_nat_inj: "show_nat m = show_nat n \<Longrightarrow> m = n"
proof (induction m arbitrary: n rule: show_nat.induct)
  case (1 m)
  show ?case
  proof (cases "m < 10")
    case True
    then have "length (show_nat n) = 1"
      using 1(2) [symmetric] by (simp add: show_nat_small)
    then have n: "n < 10"
      using show_nat_length_large [of n] by (cases "n < 10") auto
    from 1(2) True n have "digit_char m = digit_char n"
      by (simp add: show_nat_small)
    then show ?thesis
      using True n by (rule digit_char_inj [rotated 2])
  next
    case False
    have n: "\<not> n < 10"
    proof
      assume "n < 10"
      then have "length (show_nat m) = 1" using 1(2) by (simp add: show_nat_small)
      with show_nat_length_large [OF False] show False by simp
    qed
    have "show_nat (m div 10) @ [digit_char (m mod 10)] = show_nat (n div 10) @ [digit_char (n mod 10)]"
      using 1(2) show_nat_large [OF False] show_nat_large [OF n] by simp
    then have eq: "show_nat (m div 10) = show_nat (n div 10)"
      and d: "digit_char (m mod 10) = digit_char (n mod 10)"
      by simp_all
    have q: "m div 10 = n div 10" using 1(1) [OF False eq] .
    have r: "m mod 10 = n mod 10"
      by (rule digit_char_inj [OF _ _ d]) simp_all
    have "m = 10 * (m div 10) + m mod 10" by simp
    also have "\<dots> = 10 * (n div 10) + n mod 10" using q r by simp
    also have "\<dots> = n" by simp
    finally show ?thesis .
  qed
qed


lemma bit_length_0 [simp]: "bit_length 0 = 0"
  by (subst bit_length.simps) simp

lemma bit_length_pos: "0 < n \<Longrightarrow> bit_length n = Suc (bit_length (n div 2))"
  by (subst bit_length.simps) simp

lemma bit_length_le: "bit_length n \<le> k \<longleftrightarrow> n < 2 ^ k"
proof (induction n arbitrary: k rule: bit_length.induct)
  case (1 n)
  show ?case
  proof (cases "n = 0")
    case True
    then show ?thesis by simp
  next
    case False
    then have pos: "0 < n" by simp
    show ?thesis
    proof (cases k)
      case 0
      with pos show ?thesis by (simp add: bit_length_pos)
    next
      case (Suc j)
      have "bit_length n \<le> Suc j \<longleftrightarrow> bit_length (n div 2) \<le> j"
        using pos by (simp add: bit_length_pos)
      also have "\<dots> \<longleftrightarrow> n div 2 < 2 ^ j"
        using 1 [OF False] by simp
      also have "\<dots> \<longleftrightarrow> n < 2 ^ Suc j"
        by auto
      finally show ?thesis using Suc by simp
    qed
  qed
qed

lemma to_double_exact:
  assumes "\<bar>n\<bar> < 2 ^ 53"
  shows "to_double n = Inr n"
proof -
  have "nat \<bar>n\<bar> < 2 ^ 53"
    using assms by (simp add: nat_less_iff)
  then have "bit_length (nat \<bar>n\<bar>) \<le> 53"
    by (simp only: bit_length_le)
  then show ?thesis
    by (simp add: to_double_def Let_def)
qed
lemma prefix_free_whitespace: "prefix_free whitespace"
  by (simp add: prefix_free_def whitespace_def)

lemma prefix_free_rev_whitespace: "prefix_free (map rev whitespace)"
  by (simp add: prefix_free_def whitespace_def)

lemma leading_SomeD:
  assumes "leading ws s = Some w"
  shows "w \<in> set ws" and "w \<noteq> []" and "s = w @ drop (length w) s"
proof -
  from assms have *: "w \<in> set ws" "w \<noteq> []" "take (length w) s = w"
    by (auto simp: leading_def find_Some_iff)
  show "w \<in> set ws" "w \<noteq> []" by (rule *)+
  have "s = take (length w) s @ drop (length w) s" by simp
  with * show "s = w @ drop (length w) s" by simp
qed

lemma strip_front_None: "leading ws s = None \<Longrightarrow> strip_front ws s = s"
  by (subst strip_front.simps) simp

lemma strip_front_Some: "leading ws s = Some w \<Longrightarrow> strip_front ws s = strip_front ws (drop (length w) s)"
  by (subst strip_front.simps) simp

lemma strip_front_decomp:
  "\<exists>a. set a \<subseteq> set ws \<and> s = concat a @ strip_front ws s \<and> leading ws (strip_front ws s) = None"
proof (induction ws s rule: strip_front.induct)
  case (1 ws s)
  show ?case
  proof (cases "leading ws s")
    case None
    then have "set [] \<subseteq> set ws \<and> s = concat [] @ strip_front ws s \<and> leading ws (strip_front ws s) = None"
      by (simp add: strip_front_None)
    then show ?thesis by blast
  next
    case (Some w)
    from 1 [OF Some] obtain a where a: "set a \<subseteq> set ws"
      "drop (length w) s = concat a @ strip_front ws (drop (length w) s)"
      "leading ws (strip_front ws (drop (length w) s)) = None"
      by blast
    have w: "w \<in> set ws" "s = w @ drop (length w) s"
      using leading_SomeD [OF Some] by blast+
    have eq: "strip_front ws s = strip_front ws (drop (length w) s)"
      by (rule strip_front_Some [OF Some])
    have "s = concat (w # a) @ strip_front ws s"
      using w(2) a(2) eq by (metis append.assoc concat.simps(2))
    moreover have "set (w # a) \<subseteq> set ws" using w(1) a(1) by simp
    moreover have "leading ws (strip_front ws s) = None" using a(3) eq by simp
    ultimately show ?thesis by blast
  qed
qed

lemma leading_prefix_free:
  assumes pf: "prefix_free ws" and w: "w \<in> set ws"
  shows "leading ws (w @ s) = Some w"
proof -
  have wne: "w \<noteq> []"
    using pf w by (auto simp: prefix_free_def list_all_iff)
  have "\<exists>x\<in>set ws. x \<noteq> [] \<and> take (length x) (w @ s) = x"
    using w wne by auto
  then obtain w' where w': "leading ws (w @ s) = Some w'"
    by (cases "leading ws (w @ s)") (auto simp: leading_def find_None_iff)
  have p: "w' \<in> set ws" "take (length w') (w @ s) = w'"
    using w' by (auto simp: leading_def find_Some_iff)
  have "w' = w"
  proof (cases "length w \<le> length w'")
    case True
    have "take (length w) w' = take (length w) (take (length w') (w @ s))"
      using p(2) by simp
    also have "\<dots> = w" using True by (simp add: min_def)
    finally have "take (length w) w' = w" .
    with pf w p(1) show ?thesis
      by (auto simp: prefix_free_def list_all_iff)
  next
    case False
    then have "take (length w') w = w'"
      using p(2) by simp
    with pf w p(1) show ?thesis
      by (auto simp: prefix_free_def list_all_iff)
  qed
  with w' show ?thesis by simp
qed

lemma strip_front_concat:
  assumes pf: "prefix_free ws"
  shows "set a \<subseteq> set ws \<Longrightarrow> strip_front ws (concat a @ s) = strip_front ws s"
proof (induction a)
  case Nil
  show ?case by simp
next
  case (Cons w a)
  then have w: "w \<in> set ws" and a: "set a \<subseteq> set ws" by auto
  have "leading ws (w @ (concat a @ s)) = Some w"
    by (rule leading_prefix_free [OF pf w])
  then have "strip_front ws (w @ (concat a @ s)) = strip_front ws (concat a @ s)"
    by (simp add: strip_front_Some)
  with Cons.IH [OF a] show ?case by simp
qed

lemma leading_Nil: "leading ws [] = None"
  by (auto simp: leading_def find_None_iff)

lemma strip_front_Nil [simp]: "strip_front ws [] = []"
  by (simp add: strip_front_None leading_Nil)

lemma strip_Nil [simp]: "strip [] = []"
  by (simp add: strip_def lstrip_def rstrip_def)

lemma rev_concat_whitespace:
  assumes "set b \<subseteq> set (map rev whitespace)"
  shows "\<exists>c. set c \<subseteq> set whitespace \<and> rev (concat b) = concat c"
proof -
  have "rev (concat b) = concat (map rev (rev b))"
    by (simp add: rev_concat)
  moreover have "set (map rev (rev b)) \<subseteq> set whitespace"
    using assms by auto
  ultimately show ?thesis by blast
qed

lemma strip_decomp:
  "\<exists>a b. whitespace_only a \<and> whitespace_only b \<and> s = a @ strip s @ b"
proof -
  obtain a where a: "set a \<subseteq> set whitespace" "s = concat a @ lstrip s"
    using strip_front_decomp [of whitespace s] by (auto simp: lstrip_def)
  obtain b where b: "set b \<subseteq> set (map rev whitespace)"
    "rev (lstrip s) = concat b @ strip_front (map rev whitespace) (rev (lstrip s))"
    using strip_front_decomp [of "map rev whitespace" "rev (lstrip s)"] by blast
  from rev_concat_whitespace [OF b(1)] obtain c where c: "set c \<subseteq> set whitespace" "rev (concat b) = concat c"
    by blast
  have "lstrip s = rev (rev (lstrip s))" by simp
  also have "\<dots> = strip s @ rev (concat b)"
    by (subst b(2)) (simp add: strip_def rstrip_def)
  finally have "lstrip s = strip s @ concat c" using c(2) by simp
  with a(2) have "s = concat a @ strip s @ concat c" by simp
  moreover have "whitespace_only (concat a)" "whitespace_only (concat c)"
    using a(1) c(1) by (auto simp: whitespace_only_def)
  ultimately show ?thesis by blast
qed

lemma whitespace_only_append:
  "whitespace_only a \<Longrightarrow> whitespace_only b \<Longrightarrow> whitespace_only (a @ b)"
proof -
  assume "whitespace_only a" "whitespace_only b"
  then obtain x y where "set x \<subseteq> set whitespace" "a = concat x" "set y \<subseteq> set whitespace" "b = concat y"
    by (auto simp: whitespace_only_def)
  then have "set (x @ y) \<subseteq> set whitespace \<and> a @ b = concat (x @ y)" by simp
  then show ?thesis unfolding whitespace_only_def by blast
qed

lemma strip_empty_iff: "strip s = [] \<longleftrightarrow> whitespace_only s"
proof
  assume e: "strip s = []"
  from strip_decomp [of s] obtain a b where "whitespace_only a" "whitespace_only b" "s = a @ strip s @ b"
    by blast
  with e show "whitespace_only s"
    by (simp add: whitespace_only_append)
next
  assume "whitespace_only s"
  then obtain a where a: "set a \<subseteq> set whitespace" "s = concat a"
    by (auto simp: whitespace_only_def)
  have "lstrip s = strip_front whitespace (concat a @ [])"
    using a(2) by (simp add: lstrip_def)
  also have "\<dots> = strip_front whitespace []"
    by (rule strip_front_concat [OF prefix_free_whitespace a(1)])
  finally have "lstrip s = []" by simp
  then show "strip s = []"
    by (simp add: strip_def rstrip_def)
qed

lemma strip_default: "strip ''software engineer'' = ''software engineer''"
  by (simp add: strip_def lstrip_def rstrip_def strip_front.simps leading_def whitespace_def)

lemma salary_type_ofD:
  assumes "salary_type_of raw = Some t"
  obtains kv ty st where "raw = JObj kv"
    and "py_get raw ''type'' (JObj []) = Inr (JObj ty)"
    and "py_get (JObj ty) ''salaryType'' (JStr []) = Inr st"
    and "st = JNull \<and> t = [] \<or> st = JStr t"
proof -
  from assms obtain kv where kv: "raw = JObj kv"
    by (cases raw) (auto simp: salary_type_of_def)
  from assms kv obtain ty where ty: "py_get raw ''type'' (JObj []) = Inr (JObj ty)"
    by (auto simp: salary_type_of_def split: option.splits json.splits)
  from assms ty have "\<exists>st. py_get (JObj ty) ''salaryType'' (JStr []) = Inr st \<and> (st = JNull \<and> t = [] \<or> st = JStr t)"
    by (auto simp: salary_type_of_def split: option.splits json.splits)
  with kv ty that show thesis by blast
qed

lemma suffix_step:
  assumes "st = JNull \<and> t = [] \<or> st = JStr t"
  shows "bindE (if truthy st then bindE (py_title ext st) (\<lambda>t. Inr ('' '' @ t)) else Inr []) f
           = f (suffix_of ext t)"
  using assms by (auto simp: suffix_of_def)

lemma format_salary_single:
  assumes ty: "salary_type_of raw = Some t"
    and b: "bound raw ''minimum'' = v
              \<and> (bound raw ''maximum'' = JNull \<or> py_eq v (bound raw ''maximum''))
         \<or> bound raw ''minimum'' = JNull \<and> bound raw ''maximum'' = v"
    and nn: "v \<noteq> JNull"
    and v: "format_f0 v = Inr s"
  shows "format_salary ext raw = Inr (Some (''$'' @ s @ suffix_of ext t))"
proof -
  from ty obtain kv ty' st where raw: "raw = JObj kv"
    and g1: "py_get raw ''type'' (JObj []) = Inr (JObj ty')"
    and g2: "py_get (JObj ty') ''salaryType'' (JStr []) = Inr st"
    and st: "st = JNull \<and> t = [] \<or> st = JStr t"
    by (rule salary_type_ofD)
  obtain mn mx where mn: "py_get raw ''minimum'' JNull = Inr mn" and mx: "py_get raw ''maximum'' JNull = Inr mx"
    using raw by simp
  have bmn: "bound raw ''minimum'' = mn" and bmx: "bound raw ''maximum'' = mx"
    using mn mx by (simp_all add: bound_def)
  have ne: "kv \<noteq> []"
    using b nn raw by (auto simp: bound_def)
  then have tr: "truthy raw" using raw by simp
  from b bmn bmx consider
      (both) "mn = v" "py_eq v mx"
    | (lo) "mn = v" "mx = JNull"
    | (hi) "mn = JNull" "mx = v"
    by auto
  then show ?thesis
  proof cases
    case both
    show ?thesis
      unfolding format_salary_def
      by (simp add: tr mn mx g1 g2 both nn v suffix_step [OF st] del: py_get.simps)
  next
    case lo
    show ?thesis
      unfolding format_salary_def
      by (simp add: tr mn mx g1 g2 lo nn v suffix_step [OF st] del: py_get.simps)
  next
    case hi
    show ?thesis
      unfolding format_salary_def
      by (simp add: tr mn mx g1 g2 hi nn v suffix_step [OF st] del: py_get.simps)
  qed
qed

lemma format_salary_range:
  assumes ty: "salary_type_of raw = Some t"
    and lo: "bound raw ''minimum'' = x" and hi: "bound raw ''maximum'' = y"
    and tx: "truthy x" and ty': "truthy y" and ne: "\<not> py_eq x y"
    and fx: "format_f0 x = Inr sx" and fy: "format_f0 y = Inr sy"
  shows "format_salary ext raw
           = Inr (Some (''$'' @ sx @ '' '' @ en_dash @ '' $'' @ sy @ suffix_of ext t))"
proof -
  from ty obtain kv tyo st where raw: "raw = JObj kv"
    and g1: "py_get raw ''type'' (JObj []) = Inr (JObj tyo)"
    and g2: "py_get (JObj tyo) ''salaryType'' (JStr []) = Inr st"
    and st: "st = JNull \<and> t = [] \<or> st = JStr t"
    by (rule salary_type_ofD)
  obtain mn mx where mn: "py_get raw ''minimum'' JNull = Inr mn" and mx: "py_get raw ''maximum'' JNull = Inr mx"
    using raw by simp
  have bmn: "mn = x" and bmx: "mx = y"
    using mn mx lo hi by (simp_all add: bound_def)
  have nx: "x \<noteq> JNull" and ny: "y \<noteq> JNull"
    using tx ty' by auto
  have "kv \<noteq> []"
    using lo nx raw by (auto simp: bound_def)
  then have tr: "truthy raw" using raw by simp
  show ?thesis
    unfolding format_salary_def
    by (simp add: tr mn mx g1 g2 bmn bmx tx ty' ne nx ny fx fy suffix_step [OF st] del: py_get.simps)
qed

text \<open>A plain number is true and the format renders it as \<open>grouped\<close> says.\<close>

lemma plain_number_format:
  assumes "plain_number v"
  shows "truthy v" and "format_f0 v = Inr (grouped v)"
  using assms
  by (auto simp: plain_number_def grouped_def to_double_exact split: json.splits pyfloat.splits)

text \<open>
  The rounding of \<open>round_even\<close>: a double that is an integer is kept, and the result is
  at most one half away from any other.
\<close>

lemma round_even_whole: "0 \<le> e \<Longrightarrow> round_even m e = m * 2 ^ nat e"
  by (simp add: round_even_def)

lemma round_even_nearest:
  assumes "e < 0"
  shows "2 * \<bar>int (round_even m e) * 2 ^ nat (- e) - int m\<bar> \<le> 2 ^ nat (- e)"
proof -
  define d where "d = (2::nat) ^ nat (- e)"
  define q r where "q = m div d" and "r = m mod d"
  have d: "0 < d" by (simp add: d_def)
  have m: "m = q * d + r" by (simp add: q_def r_def)
  have r: "r < d" using d by (simp add: r_def)
  have re: "round_even m e = (if d < 2 * r \<or> (2 * r = d \<and> odd q) then q + 1 else q)"
    using assms by (simp add: round_even_def Let_def d_def q_def r_def)
  have "2 * \<bar>int (round_even m e) * int d - int m\<bar> \<le> int d"
  proof (cases "d < 2 * r \<or> (2 * r = d \<and> odd q)")
    case True
    then have "round_even m e = q + 1" by (simp add: re)
    then have "int (round_even m e) * int d - int m = int d - int r"
      by (subst (2) m) (simp add: algebra_simps)
    with True r show ?thesis by auto
  next
    case False
    then have "round_even m e = q" by (simp add: re)
    then have "int (round_even m e) * int d - int m = - int r"
      by (subst (2) m) (simp add: algebra_simps)
    with False show ?thesis by auto
  qed
  then show ?thesis by (simp add: d_def)
qed

lemma format_salary_no_bounds:
  assumes ty: "salary_type_of raw = Some t"
    and lo: "bound raw ''minimum'' = JNull" and hi: "bound raw ''maximum'' = JNull"
  shows "format_salary ext raw = Inr None"
proof -
  from ty obtain kv ty' st where raw: "raw = JObj kv"
    and g1: "py_get raw ''type'' (JObj []) = Inr (JObj ty')"
    and g2: "py_get (JObj ty') ''salaryType'' (JStr []) = Inr st"
    by (rule salary_type_ofD)
  obtain mn mx where mn: "py_get raw ''minimum'' JNull = Inr mn" and mx: "py_get raw ''maximum'' JNull = Inr mx"
    using raw by simp
  have "mn = JNull" "mx = JNull"
    using mn mx lo hi by (simp_all add: bound_def)
  then show ?thesis
    unfolding format_salary_def
    by (simp add: mn mx g1 g2 del: py_get.simps)
qed

lemma format_salary_falsy: "\<not> truthy raw \<Longrightarrow> format_salary ext raw = Inr None"
  by (simp add: format_salary_def)

lemma format_salary_bad_type:
  assumes "raw = JObj kv" and "kv \<noteq> []" and "map_of kv ''type'' = Some ty" and "\<forall>t. ty \<noteq> JObj t"
  shows "format_salary ext raw = Inl AttributeError"
proof -
  have "py_get ty ''salaryType'' (JStr []) = Inl AttributeError"
    using assms(4) by (cases ty) simp_all
  then show ?thesis
    using assms(1-3) by (simp add: format_salary_def)
qed

lemma show_int_nat [simp]: "show_int (int n) = show_nat n"
  by (simp add: show_int_def)

lemma show_int_nonempty: "show_int i \<noteq> []"
  by (simp add: show_int_def show_nat_nonempty)

lemma py_str_truthy: "truthy v \<Longrightarrow> py_str ext v \<noteq> []"
  by (cases v) (simp_all add: show_int_nonempty split: pyfloat.splits)

lemma py_or_bound:
  assumes "py_get item k (JObj []) = Inr v"
  shows "py_or v (JObj []) = py_or (bound item k) (JObj [])"
proof -
  from assms obtain kv where "item = JObj kv" by (cases item) auto
  with assms show ?thesis
    by (auto simp: bound_def py_or_def split: option.splits)
qed

lemma py_get_bound: "py_get item k JNull = Inr v \<Longrightarrow> bound item k = v"
  by (simp add: bound_def)

lemma bound_empty [simp]: "bound (JObj []) k = JNull"
  by (simp add: bound_def)

lemma ident_of_provider:
  assumes "ident_of (py_or (bound item ''metadata'') (JObj [])) item n = Inr v"
  shows "v = (case provider_ident item of Some w \<Rightarrow> w | None \<Rightarrow> JInt (int n))"
    and "provider_ident item \<noteq> None \<longrightarrow> truthy v"
proof -
  let ?md = "py_or (bound item ''metadata'') (JObj [])"
  from assms obtain jp where jp: "py_get ?md ''jobPostId'' JNull = Inr jp"
    and rest: "(if truthy jp then Inr jp
                else bindE (py_get item ''uuid'' JNull) (\<lambda>uuid. Inr (py_or uuid (JInt (int n))))) = Inr v"
    unfolding ident_of_def by (rule bindE_InrE)
  have bj: "bound ?md ''jobPostId'' = jp"
    using jp by (rule py_get_bound)
  show "v = (case provider_ident item of Some w \<Rightarrow> w | None \<Rightarrow> JInt (int n))"
    and "provider_ident item \<noteq> None \<longrightarrow> truthy v"
  proof -
    show "v = (case provider_ident item of Some w \<Rightarrow> w | None \<Rightarrow> JInt (int n))"
    proof (cases "truthy jp")
      case True
      with rest bj show ?thesis by (simp add: provider_ident_def Let_def)
    next
      case False
      with rest obtain u where u: "py_get item ''uuid'' JNull = Inr u" and v: "v = py_or u (JInt (int n))"
        by (auto elim: bindE_InrE)
      have "bound item ''uuid'' = u" using u by (rule py_get_bound)
      with False bj v show ?thesis
        by (simp add: provider_ident_def Let_def py_or_def)
    qed
    show "provider_ident item \<noteq> None \<longrightarrow> truthy v"
    proof (cases "truthy jp")
      case True
      with rest show ?thesis by simp
    next
      case False
      with rest obtain u where u: "py_get item ''uuid'' JNull = Inr u" and v: "v = py_or u (JInt (int n))"
        by (auto elim: bindE_InrE)
      have "bound item ''uuid'' = u" using u by (rule py_get_bound)
      with False bj v show ?thesis
        by (simp add: provider_ident_def Let_def py_or_def)
    qed
  qed
qed

lemma normalize_id:
  assumes "normalize_item ext item n = Inr p"
  shows "id_str p = (case provider_ident item of Some w \<Rightarrow> py_str ext w | None \<Rightarrow> show_nat n)"
    and "id_str p \<noteq> []"
proof -
  from assms obtain md ident where md: "py_get item ''metadata'' (JObj []) = Inr md"
    and ident: "ident_of (py_or md (JObj [])) item n = Inr ident"
    and p: "id_str p = py_str ext ident"
    unfolding normalize_item_def Let_def
    by (elim bindE_InrE) auto
  have "ident_of (py_or (bound item ''metadata'') (JObj [])) item n = Inr ident"
    using ident py_or_bound [OF md] by simp
  note * = ident_of_provider [OF this]
  show "id_str p = (case provider_ident item of Some w \<Rightarrow> py_str ext w | None \<Rightarrow> show_nat n)"
    using p *(1) by (simp split: option.splits)
  show "id_str p \<noteq> []"
    using p * by (cases "provider_ident item") (auto simp: show_nat_nonempty py_str_truthy)
qed

lemma normalize_all_nth:
  assumes "normalize_all ext items acc = Inr ps"
  shows "\<exists>qs. ps = acc @ qs \<and> length qs = length items
          \<and> (\<forall>i<length items. normalize_item ext (items ! i) (length acc + i) = Inr (qs ! i))"
  using assms
proof (induction items arbitrary: acc)
  case Nil
  then show ?case by simp
next
  case (Cons item items)
  from Cons.prems obtain p where p: "normalize_item ext item (length acc) = Inr p"
    and rest: "normalize_all ext items (acc @ [p]) = Inr ps"
    by (auto simp: bindE_eq_Inr)
  from Cons.IH [OF rest] obtain qs where qs: "ps = (acc @ [p]) @ qs" "length qs = length items"
    "\<forall>i<length items. normalize_item ext (items ! i) (length (acc @ [p]) + i) = Inr (qs ! i)"
    by blast
  have "ps = acc @ (p # qs)" using qs(1) by simp
  moreover have "length (p # qs) = length (item # items)" using qs(2) by simp
  moreover have "\<forall>i<length (item # items). normalize_item ext ((item # items) ! i) (length acc + i) = Inr ((p # qs) ! i)"
  proof (intro allI impI)
    fix i assume i: "i < length (item # items)"
    show "normalize_item ext ((item # items) ! i) (length acc + i) = Inr ((p # qs) ! i)"
    proof (cases i)
      case 0
      with p show ?thesis by simp
    next
      case (Suc j)
      with i qs(3) show ?thesis by simp
    qed
  qed
  ultimately show ?case by blast
qed

lemma normalize_all_order:
  assumes "normalize_all ext items [] = Inr ps"
  shows "length ps = length items"
    and "\<forall>i<length items. normalize_item ext (items ! i) i = Inr (ps ! i)"
  using normalize_all_nth [OF assms] by auto

lemma group3_filter: "filter (\<lambda>c. c \<noteq> CHR '','') (group3 ds) = filter (\<lambda>c. c \<noteq> CHR '','') ds"
  by (induction ds rule: group3.induct) simp_all

lemma digit_char_not_comma: "digit_char d \<noteq> CHR '',''"
  by (simp add: digit_char_def)

lemma show_nat_no_comma: "CHR '','' \<notin> set (show_nat n)"
proof (induction n rule: show_nat.induct)
  case (1 n)
  show ?case
  proof (cases "n < 10")
    case True
    then show ?thesis
      using digit_char_not_comma [of n] by (simp add: show_nat_small)
  next
    case False
    have "CHR '','' \<notin> set (show_nat (n div 10))"
      using 1 [OF False] .
    then show ?thesis
      using digit_char_not_comma [of "n mod 10"] show_nat_large [OF False] by auto
  qed
qed

lemma commas_nat_digits: "filter (\<lambda>c. c \<noteq> CHR '','') (commas_nat n) = show_nat n"
proof -
  let ?P = "\<lambda>c. c \<noteq> CHR '',''"
  have "filter ?P (commas_nat n) = rev (filter ?P (group3 (rev (show_nat n))))"
    by (simp add: commas_nat_def rev_filter)
  also have "\<dots> = rev (filter ?P (rev (show_nat n)))"
    by (simp only: group3_filter)
  also have "\<dots> = filter ?P (show_nat n)"
    by (simp add: rev_filter)
  also have "\<dots> = show_nat n"
    using show_nat_no_comma [of n] by (auto simp: filter_id_conv)
  finally show ?thesis .
qed

lemma commas_digits: "filter (\<lambda>c. c \<noteq> CHR '','') (commas i) = show_int i"
  by (simp add: commas_def show_int_def commas_nat_digits)

lemma show_nat_length_small:
  assumes "n < 1000"
  shows "length (show_nat n) \<le> 3"
proof -
  have a: "length (show_nat m) = 1" if "m < 10" for m
    using that by (simp add: show_nat_small)
  have b: "length (show_nat m) \<le> 2" if "m < 100" for m
  proof (cases "m < 10")
    case True
    then show ?thesis using a [of m] by simp
  next
    case False
    have "m div 10 < 10" using that by simp
    then show ?thesis
      using a [of "m div 10"] show_nat_large [OF False] by simp
  qed
  show ?thesis
  proof (cases "n < 10")
    case True
    then show ?thesis using a [of n] by simp
  next
    case False
    have "n div 10 < 100" using assms by simp
    then show ?thesis
      using b [of "n div 10"] show_nat_large [OF False] by simp
  qed
qed

lemma group3_short: "length ds \<le> 3 \<Longrightarrow> group3 ds = ds"
  by (induction ds rule: group3.induct) simp_all

lemma commas_nat_small: "n < 1000 \<Longrightarrow> commas_nat n = show_nat n"
  by (simp add: commas_nat_def group3_short show_nat_length_small)

lemma show_nat_thousands:
  assumes "1000 \<le> n"
  shows "show_nat n = show_nat (n div 1000)
           @ [digit_char (n div 100 mod 10), digit_char (n div 10 mod 10), digit_char (n mod 10)]"
proof -
  have 1: "\<not> n < 10" and 2: "\<not> n div 10 < 10" and 3: "\<not> n div 10 div 10 < 10"
    using assms by simp_all
  have d: "n div 10 div 10 = n div 100" "n div 100 div 10 = n div 1000"
    by (simp_all add: div_mult2_eq [symmetric])
  have "show_nat n = show_nat (n div 10) @ [digit_char (n mod 10)]"
    by (rule show_nat_large [OF 1])
  also have "show_nat (n div 10) = show_nat (n div 10 div 10) @ [digit_char (n div 10 mod 10)]"
    by (rule show_nat_large [OF 2])
  also have "show_nat (n div 10 div 10) = show_nat (n div 10 div 10 div 10) @ [digit_char (n div 10 div 10 mod 10)]"
    by (rule show_nat_large [OF 3])
  finally show ?thesis
    by (simp add: d)
qed

lemma commas_nat_thousands:
  assumes "1000 \<le> n"
  shows "commas_nat n = commas_nat (n div 1000) @ '','' 
           @ [digit_char (n div 100 mod 10), digit_char (n div 10 mod 10), digit_char (n mod 10)]"
proof -
  obtain d ds where r: "rev (show_nat (n div 1000)) = d # ds"
    using show_nat_nonempty [of "n div 1000"] by (cases "rev (show_nat (n div 1000))") auto
  show ?thesis
    by (simp add: commas_nat_def show_nat_thousands [OF assms] r)
qed

section \<open>Evaluation of closed terms\<close>

lemma to_double_small: "\<bar>n\<bar> < 9007199254740992 \<Longrightarrow> to_double n = Inr n"
  using to_double_exact [of n] by simp

lemmas text_eval =
  commas_def commas_nat_def show_nat.simps digit_char_def en_dash_def
  title_case_def is_ascii_def to_upper_def to_lower_def is_upper_def is_lower_def
  ascii_lowercase_def ascii_uppercase_def

lemmas salary_eval = format_salary_def to_double_small text_eval

section \<open>The salary formatter\<close>

text \<open>
  What the formatter does on a record whose \<^verbatim>\<open>type\<close> is missing or an object: one value
  when only one bound is there or both are the same, nothing when both are missing.
\<close>

lemma format_salary_single_exact:
  assumes "salary_type_of raw = Some t"
    and "bound raw ''minimum'' = JInt v \<and> (bound raw ''maximum'' = JNull \<or> bound raw ''maximum'' = JInt v)
         \<or> bound raw ''minimum'' = JNull \<and> bound raw ''maximum'' = JInt v"
    and "\<bar>v\<bar> < 2 ^ 53"
  shows "format_salary ext raw = Inr (Some (''$'' @ commas v @ suffix_of ext t))"
proof (rule format_salary_single [where v = "JInt v"])
  show "salary_type_of raw = Some t" by (rule assms(1))
  show "bound raw ''minimum'' = JInt v
          \<and> (bound raw ''maximum'' = JNull \<or> py_eq (JInt v) (bound raw ''maximum''))
        \<or> bound raw ''minimum'' = JNull \<and> bound raw ''maximum'' = JInt v"
    using assms(2) by auto
  show "JInt v \<noteq> JNull" by simp
  show "format_f0 (JInt v) = Inr (commas v)"
    using to_double_exact [OF assms(3)] by simp
qed

lemma format_salary_monthly:
  "format_salary ext (JObj [(''minimum'', JInt 1000), (''maximum'', JInt 1000),
                            (''type'', JObj [(''salaryType'', JStr ''Monthly'')])])
     = Inr (Some ''$1,000 Monthly'')"
  by (simp add: salary_eval)

lemma format_salary_zero_minimum:
  "format_salary ext (JObj [(''minimum'', JInt 0), (''maximum'', JInt 5000)]) = Inr (Some ''$0'')"
  by (simp add: salary_eval)

text \<open>
  Claim C1, as stated: whenever minimum and maximum are both numbers and differ, the
  result is the text \<open>$min\<close>, an en dash between spaces, \<open>$max\<close>. It fails on a record
  that has a salary type: the title-cased type follows the range.
\<close>

theorem format_salary_range_counterexample:
  "format_salary (provider_answering JNull)
       (JObj [(''minimum'', JInt 3000), (''maximum'', JInt 5000),
              (''type'', JObj [(''salaryType'', JStr ''Monthly'')])])
     = Inr (Some (''$3,000 '' @ en_dash @ '' $5,000 Monthly''))
   \<and> format_salary (provider_answering JNull)
       (JObj [(''minimum'', JInt 3000), (''maximum'', JInt 5000),
              (''type'', JObj [(''salaryType'', JStr ''Monthly'')])])
     \<noteq> Inr (Some (''$3,000 '' @ en_dash @ '' $5,000''))"
  by (simp add: salary_eval)

text \<open>
  Claim C1, amended: for a record whose \<^verbatim>\<open>type\<close> is missing or an object, with minimum
  and maximum two numbers that differ, each of them an integer below \<open>2 ^ 53\<close> in
  magnitude or a finite double, and neither of them zero, the result is \<open>$min\<close>, an en
  dash between spaces, \<open>$max\<close>, each bound rounded to the nearest integer (ties to even)
  and written with thousands separators and no decimals (\<open>round_even_nearest\<close>,
  \<open>commas_digits\<close>), followed by a space and the
  salary type as \<^verbatim>\<open>str.title()\<close> gives it when there is one. With 3000, 5000 and no type
  it is \<open>$3,000 \<dots> $5,000\<close>; with 3000.5, 5000 and the type \<^verbatim>\<open>monthly\<close> it is
  \<open>$3,000 \<dots> $5,000 Monthly\<close>.
\<close>

theorem format_salary_range_amended:
  assumes "salary_type_of raw = Some t"
    and "plain_number (bound raw ''minimum'')" and "plain_number (bound raw ''maximum'')"
    and "\<not> py_eq (bound raw ''minimum'') (bound raw ''maximum'')"
  shows "format_salary ext raw
           = Inr (Some (''$'' @ grouped (bound raw ''minimum'') @ '' '' @ en_dash @ '' $''
                        @ grouped (bound raw ''maximum'') @ suffix_of ext t))"
  using assms(1) refl refl plain_number_format(1) [OF assms(2)] plain_number_format(1) [OF assms(3)]
    assms(4) plain_number_format(2) [OF assms(2)] plain_number_format(2) [OF assms(3)]
  by (rule format_salary_range)

theorem format_salary_range_amended_witness:
  "format_salary (provider_answering JNull)
       (JObj [(''minimum'', JInt 3000), (''maximum'', JInt 5000)])
     = Inr (Some (''$3,000 '' @ en_dash @ '' $5,000''))
   \<and> format_salary (provider_answering JNull)
       (JObj [(''minimum'', JFloat (Finite False 6001 (- 1))), (''maximum'', JInt 5000),
              (''type'', JObj [(''salaryType'', JStr ''monthly'')])])
     = Inr (Some (''$3,000 '' @ en_dash @ '' $5,000 Monthly''))"
proof -
  let ?ext = "provider_answering JNull"
  let ?raw = "JObj [(''minimum'', JInt 3000), (''maximum'', JInt 5000)]"
  let ?half = "JObj [(''minimum'', JFloat (Finite False 6001 (- 1))), (''maximum'', JInt 5000),
                     (''type'', JObj [(''salaryType'', JStr ''monthly'')])]"
  have "salary_type_of ?raw = Some []"
    by (simp add: salary_type_of_def)
  moreover have "plain_number (bound ?raw ''minimum'')" "plain_number (bound ?raw ''maximum'')"
    by (simp_all add: bound_def plain_number_def)
  moreover have "\<not> py_eq (bound ?raw ''minimum'') (bound ?raw ''maximum'')"
    by (simp add: bound_def)
  ultimately have "format_salary ?ext ?raw
      = Inr (Some (''$'' @ grouped (bound ?raw ''minimum'') @ '' '' @ en_dash @ '' $''
                   @ grouped (bound ?raw ''maximum'') @ suffix_of ?ext []))"
    by (rule format_salary_range_amended)
  then have 1: "format_salary ?ext ?raw = Inr (Some (''$3,000 '' @ en_dash @ '' $5,000''))"
    by (simp add: bound_def grouped_def suffix_of_def text_eval)
  have "salary_type_of ?half = Some ''monthly''"
    by (simp add: salary_type_of_def)
  moreover have "plain_number (bound ?half ''minimum'')" "plain_number (bound ?half ''maximum'')"
    by (simp_all add: bound_def plain_number_def)
  moreover have "\<not> py_eq (bound ?half ''minimum'') (bound ?half ''maximum'')"
    by (simp add: bound_def signed_def)
  ultimately have "format_salary ?ext ?half
      = Inr (Some (''$'' @ grouped (bound ?half ''minimum'') @ '' '' @ en_dash @ '' $''
                   @ grouped (bound ?half ''maximum'') @ suffix_of ?ext ''monthly''))"
    by (rule format_salary_range_amended)
  moreover have "round_even 6001 (- 1) = 3000"
    by (simp add: round_even_def Let_def)
  ultimately have 2: "format_salary ?ext ?half
      = Inr (Some (''$3,000 '' @ en_dash @ '' $5,000 Monthly''))"
    by (simp add: bound_def grouped_def suffix_of_def text_eval)
  from 1 2 show ?thesis by (rule conjI)
qed

text \<open>
  Claim C5: with one bound, or two equal bounds, the result is \<open>$value\<close> and the
  title-cased salary type after a space when there is one. The code raises instead on a
  record whose \<^verbatim>\<open>type\<close> is null: \<^verbatim>\<open>raw.get("type", {})\<close> is then \<^verbatim>\<open>None\<close>, which has no
  \<^verbatim>\<open>get\<close>. Where \<^verbatim>\<open>type\<close> is missing or an object the claim holds
  (\<open>format_salary_single_exact\<close>, \<open>format_salary_monthly\<close>).
\<close>

theorem single_value_null_type_raises:
  "format_salary ext (JObj [(''minimum'', JInt 1000), (''maximum'', JInt 1000), (''type'', JNull)])
     = Inl AttributeError"
  by (simp add: salary_eval)

text \<open>
  Claim C9: with no record, an empty record, or neither bound, the result is absent.
  The salary type is read before the bounds are tested, so a record without bounds
  whose \<^verbatim>\<open>type\<close> is null raises instead. Where \<^verbatim>\<open>type\<close> is missing or an object the
  claim holds (\<open>format_salary_falsy\<close>, \<open>format_salary_no_bounds\<close>).
\<close>

theorem no_bounds_null_type_raises:
  "format_salary ext (JObj [(''minimum'', JNull), (''maximum'', JNull), (''type'', JNull)])
     = Inl AttributeError"
  by (simp add: salary_eval)

section \<open>The search client\<close>

subsection \<open>Evaluation\<close>

text \<open>
  One step of stripping, as a conditional equation that evaluates on a literal.
\<close>

lemma strip_front_if:
  "strip_front ws s =
     (if leading ws s = None then s
      else strip_front ws (drop (length (the (leading ws s))) s))"
  by (cases "leading ws s") (simp_all add: strip_front_None strip_front_Some)

lemmas strip_eval =
  strip_def lstrip_def rstrip_def strip_front_if leading_def whitespace_def

lemma strip_default_term: "strip ''software engineer'' = ''software engineer''"
  by (simp add: strip_eval)

lemma effective_term_None: "effective_term None = ''software engineer''"
  unfolding effective_term_def Let_def by (simp add: strip_default_term)

lemma effective_term_Some:
  "effective_term (Some s) = (if whitespace_only s then ''software engineer'' else strip s)"
proof (cases "s = []")
  case True
  have "whitespace_only []"
    unfolding whitespace_only_def by (rule exI [of _ "[]"]) simp
  with True show ?thesis
    unfolding effective_term_def Let_def by (simp add: strip_default_term)
next
  case False
  then show ?thesis
    unfolding effective_term_def Let_def by (simp add: strip_empty_iff)
qed

lemmas item_eval =
  normalize_item_def Let_def py_or_def ident_of_def location_of_def bare_posting_def
  show_int_def salary_eval

lemma three_results_body:
  "result_of_body ext t three_results
     = Inr \<lparr>search_term = t, total = 150,
            jobs = [bare_posting ''a1'' ''Engineer'', bare_posting ''b2'' ''Analyst'',
                    bare_posting ''c3'' ''Untitled role'']\<rparr>"
  by (simp add: result_of_body_def three_results_def item_eval)

lemma zero_total_body:
  "result_of_body ext t zero_total
     = Inr \<lparr>search_term = t, total = 1, jobs = [bare_posting ''0'' ''Untitled role'']\<rparr>"
  by (simp add: result_of_body_def zero_total_def item_eval)

lemma mixed_items_postings:
  "normalize_all ext mixed_items []
     = Inr [bare_posting ''a1'' ''Untitled role'', bare_posting ''1'' ''Untitled role'',
            bare_posting ''c3'' ''Untitled role'']"
  by (simp add: mixed_items_def item_eval)

lemma colliding_items_postings:
  "normalize_all ext colliding_items []
     = Inr [bare_posting ''1'' ''Untitled role'', bare_posting ''1'' ''Untitled role'']"
  by (simp add: colliding_items_def item_eval)

lemma null_categories_raises:
  "result_of_body ext t null_categories = Inl TypeError"
  by (simp add: result_of_body_def null_categories_def item_eval)

lemma default_input_valid: "model_validate ext [] = Inr default_input"
  unfolding model_validate_def Let_def
  by (simp add: validate_search_term_def validate_int_def DEFAULT_LIMIT_def DEFAULT_PAGE_def
      default_input_def)

lemma request_jobs_answering:
  "request_jobs (provider_answering data) payload
     = lift_py (result_of_body (provider_answering data) (effective_term (search_term_in payload)) data)"
  by (simp add: request_jobs_def provider_answering_def)

lemma effective_term_default: "effective_term (search_term_in default_input) = ''software engineer''"
  by (simp add: default_input_def effective_term_Some strip_default_term strip_empty_iff [symmetric])

subsection \<open>The effective search term\<close>

text \<open>
  Claim C8: the term sent to the provider, and echoed back as \<^verbatim>\<open>search_term\<close> of the result, is
  the input stripped of surrounding whitespace when something is left, and
  \<open>''software engineer''\<close> when the input is absent, null, empty or whitespace only.
  Absent and null are both the value \<open>None\<close> of the validated input.
\<close>

theorem effective_term_resolved:
  "json_body (request_of payload)
     = [(''search'',
         case search_term_in payload of
           None \<Rightarrow> ''software engineer''
         | Some s \<Rightarrow> if whitespace_only s then ''software engineer'' else strip s)]
   \<and> (\<forall>r. request_jobs ext payload = Inr r \<longrightarrow>
          search_term r
            = (case search_term_in payload of
                 None \<Rightarrow> ''software engineer''
               | Some s \<Rightarrow> if whitespace_only s then ''software engineer'' else strip s))"
proof -
  let ?t = "case search_term_in payload of
              None \<Rightarrow> ''software engineer''
            | Some s \<Rightarrow> if whitespace_only s then ''software engineer'' else strip s"
  have t: "effective_term (search_term_in payload) = ?t"
    by (cases "search_term_in payload") (simp_all add: effective_term_None effective_term_Some)
  have "json_body (request_of payload) = [(''search'', ?t)]"
    using t by (simp add: request_of_def)
  moreover have "search_term r = ?t" if "request_jobs ext payload = Inr r" for r
  proof -
    from that obtain data where
      "result_of_body ext (effective_term (search_term_in payload)) data = Inr r"
      by (auto simp: request_jobs_def lift_py_def split: sum.splits)
    then have "search_term r = effective_term (search_term_in payload)"
      unfolding result_of_body_def Let_def
      by (elim bindE_InrE) auto
    with t show ?thesis by simp
  qed
  ultimately show ?thesis by blast
qed

theorem effective_term_resolved_witness:
  "json_body (request_of \<lparr>search_term_in = Some ''  data '', limit = 20, page = 0\<rparr>)
     = [(''search'', ''data'')]
   \<and> request_jobs (provider_answering three_results)
        \<lparr>search_term_in = Some ''  data '', limit = 20, page = 0\<rparr>
     = Inr \<lparr>search_term = ''data'', total = 150,
            jobs = [bare_posting ''a1'' ''Engineer'', bare_posting ''b2'' ''Analyst'',
                    bare_posting ''c3'' ''Untitled role'']\<rparr>
   \<and> json_body (request_of \<lparr>search_term_in = Some [CHR 0x09, CHR 0x20], limit = 20, page = 0\<rparr>)
     = [(''search'', ''software engineer'')]"
proof -
  let ?p = "\<lparr>search_term_in = Some ''  data '', limit = 20, page = 0\<rparr>"
  let ?q = "\<lparr>search_term_in = Some [CHR 0x09, CHR 0x20], limit = 20, page = 0\<rparr>"
  let ?ext = "provider_answering three_results"
  have s: "strip ''  data '' = ''data''"
    by (simp add: strip_eval)
  then have nw: "\<not> whitespace_only ''  data ''"
    by (simp add: strip_empty_iff [symmetric])
  have "strip [CHR 0x09, CHR 0x20] = []"
    by (simp add: strip_eval)
  then have w: "whitespace_only [CHR 0x09, CHR 0x20]"
    by (simp add: strip_empty_iff)
  have body: "json_body (request_of ?p) = [(''search'', ''data'')]"
    using effective_term_resolved [of ?p ?ext] s nw by simp
  have blank: "json_body (request_of ?q) = [(''search'', ''software engineer'')]"
    using effective_term_resolved [of ?q ?ext] w by simp
  obtain r where r: "request_jobs ?ext ?p = Inr r"
    by (simp add: request_jobs_answering three_results_body lift_py_def)
  then have "search_term r = ''data''"
    using effective_term_resolved [of ?p ?ext] s nw by simp
  moreover have "request_jobs ?ext ?p
      = Inr \<lparr>search_term = effective_term (search_term_in ?p), total = 150,
             jobs = [bare_posting ''a1'' ''Engineer'', bare_posting ''b2'' ''Analyst'',
                     bare_posting ''c3'' ''Untitled role'']\<rparr>"
    by (simp add: request_jobs_answering three_results_body lift_py_def)
  ultimately have "request_jobs ?ext ?p
      = Inr \<lparr>search_term = ''data'', total = 150,
             jobs = [bare_posting ''a1'' ''Engineer'', bare_posting ''b2'' ''Analyst'',
                     bare_posting ''c3'' ''Untitled role'']\<rparr>"
    using r by auto
  with body blank show ?thesis by blast
qed

subsection \<open>The total of a result\<close>

lemma py_or_bound_default:
  assumes "py_get item k d = Inr v" and "\<not> truthy d"
  shows "py_or v d = py_or (bound item k) d"
proof -
  from assms(1) obtain kv where "item = JObj kv" by (cases item) auto
  with assms show ?thesis
    by (auto simp: bound_def py_or_def split: option.splits)
qed

lemma result_of_bodyD:
  assumes "result_of_body ext t data = Inr r"
  obtains items tot where
    "py_iter (py_or (bound data ''results'') (JList [])) = Inr items"
    and "normalize_all ext items [] = Inr (jobs r)"
    and "bound data ''total'' = tot"
    and "py_int ext (py_or tot (JInt (int (length (jobs r))))) = Inr (total r)"
    and "search_term r = t"
proof -
  from assms obtain rs items postings tot n where
    rs: "py_get data ''results'' (JList []) = Inr rs"
    and items: "py_iter (py_or rs (JList [])) = Inr items"
    and ps: "normalize_all ext items [] = Inr postings"
    and tot: "py_get data ''total'' JNull = Inr tot"
    and n: "py_int ext (py_or tot (JInt (int (length postings)))) = Inr n"
    and r: "r = \<lparr>search_term = t, total = n, jobs = postings\<rparr>"
    unfolding result_of_body_def Let_def
    by (elim bindE_InrE) auto
  have "py_or rs (JList []) = py_or (bound data ''results'') (JList [])"
    using rs by (rule py_or_bound_default) simp
  with items have "py_iter (py_or (bound data ''results'') (JList [])) = Inr items"
    by simp
  moreover have "normalize_all ext items [] = Inr (jobs r)" using ps r by simp
  moreover have "bound data ''total'' = tot" using tot by (rule py_get_bound)
  moreover have "py_int ext (py_or tot (JInt (int (length (jobs r))))) = Inr (total r)"
    using n r by simp
  moreover have "search_term r = t" using r by simp
  ultimately show thesis by (rule that)
qed

lemma request_jobsD:
  assumes "http_post ext (request_of payload) = Inr data" and "request_jobs ext payload = Inr r"
  shows "result_of_body ext (effective_term (search_term_in payload)) data = Inr r"
  using assms by (auto simp: request_jobs_def lift_py_def split: sum.splits)

text \<open>
  Claim C3, as stated: the total of the result is the total the provider reports
  whenever that field is present. It fails on a body that reports the total 0 and carries
  one item: \<^verbatim>\<open>data.get("total") or len(postings)\<close> takes the number of postings for a total of 0,
  and the result has the total 1.
\<close>

theorem total_zero_counterexample:
  "request_jobs (provider_answering zero_total) default_input
     = Inr \<lparr>search_term = ''software engineer'', total = 1,
            jobs = [bare_posting ''0'' ''Untitled role'']\<rparr>"
  by (simp add: request_jobs_answering zero_total_body effective_term_default lift_py_def)

text \<open>
  Claim C3, amended: on a body the provider answers with and a result the search
  returns, the total is the total the provider reports when that is an integer other than
  0, and the number of postings when the field is missing, null or 0; the postings are
  the items of \<^verbatim>\<open>results\<close>, normalized one by one in the order of the provider. Three items
  with the total 150 give the total 150 and three postings in order; no item and no total
  give the total 0 and no posting.
\<close>

theorem request_jobs_total:
  assumes "http_post ext (request_of payload) = Inr data"
    and "request_jobs ext payload = Inr r"
  shows "(\<forall>t. bound data ''total'' = JInt t \<and> t \<noteq> 0 \<longrightarrow> total r = t)
       \<and> (bound data ''total'' = JNull \<or> bound data ''total'' = JInt 0
            \<longrightarrow> total r = int (length (jobs r)))
       \<and> (\<exists>items. py_iter (py_or (bound data ''results'') (JList [])) = Inr items
            \<and> length (jobs r) = length items
            \<and> (\<forall>i<length items. normalize_item ext (items ! i) i = Inr (jobs r ! i)))"
proof -
  from request_jobsD [OF assms] obtain items tot where
    items: "py_iter (py_or (bound data ''results'') (JList [])) = Inr items"
    and ps: "normalize_all ext items [] = Inr (jobs r)"
    and tot: "bound data ''total'' = tot"
    and n: "py_int ext (py_or tot (JInt (int (length (jobs r))))) = Inr (total r)"
    by (rule result_of_bodyD)
  have "total r = t" if "bound data ''total'' = JInt t \<and> t \<noteq> 0" for t
    using that tot n by (auto simp: py_or_def)
  moreover have "total r = int (length (jobs r))"
    if "bound data ''total'' = JNull \<or> bound data ''total'' = JInt 0"
    using that tot n by (auto simp: py_or_def)
  moreover have "length (jobs r) = length items"
    and "\<forall>i<length items. normalize_item ext (items ! i) i = Inr (jobs r ! i)"
    using normalize_all_order [OF ps] by simp_all
  ultimately show ?thesis using items by blast
qed

theorem request_jobs_total_witness:
  "request_jobs (provider_answering three_results) default_input
     = Inr \<lparr>search_term = ''software engineer'', total = 150,
            jobs = [bare_posting ''a1'' ''Engineer'', bare_posting ''b2'' ''Analyst'',
                    bare_posting ''c3'' ''Untitled role'']\<rparr>
   \<and> total \<lparr>search_term = ''software engineer'', total = 150,
            jobs = [bare_posting ''a1'' ''Engineer'', bare_posting ''b2'' ''Analyst'',
                    bare_posting ''c3'' ''Untitled role'']\<rparr> = 150
   \<and> request_jobs (provider_answering (JObj [(''results'', JList [])])) default_input
     = Inr \<lparr>search_term = ''software engineer'', total = 0, jobs = []\<rparr>"
proof -
  let ?ext = "provider_answering three_results"
  let ?r = "\<lparr>search_term = ''software engineer'', total = 150,
             jobs = [bare_posting ''a1'' ''Engineer'', bare_posting ''b2'' ''Analyst'',
                     bare_posting ''c3'' ''Untitled role'']\<rparr>"
  have post: "http_post ?ext (request_of default_input) = Inr three_results"
    by (simp add: provider_answering_def)
  have run: "request_jobs ?ext default_input = Inr ?r"
    by (simp add: request_jobs_answering three_results_body effective_term_default lift_py_def)
  have "bound three_results ''total'' = JInt 150 \<and> (150::int) \<noteq> 0"
    by (simp add: bound_def three_results_def)
  with request_jobs_total [OF post run] have tot: "total ?r = 150"
    by blast
  let ?none = "provider_answering (JObj [(''results'', JList [])])"
  let ?empty = "\<lparr>search_term = ''software engineer'', total = 0, jobs = []\<rparr>"
  have run_empty: "request_jobs ?none default_input = Inr ?empty"
    by (simp add: request_jobs_answering result_of_body_def Let_def py_or_def
        effective_term_default lift_py_def)
  from run tot run_empty show ?thesis by blast
qed

subsection \<open>Identifiers of postings\<close>

lemma map_filter_member:
  assumes "k < length xs" and "xs ! k = Some b"
  shows "b \<in> set (List.map_filter (\<lambda>x. x) xs)"
proof -
  have "Some b \<in> set xs" using assms by (metis nth_mem)
  then show ?thesis by (auto simp: List.map_filter_def intro!: image_eqI [of _ the "Some b"])
qed

lemma map_filter_distinct_nth:
  assumes "distinct (List.map_filter (\<lambda>x. x) xs)"
    and "i < j" and "j < length xs" and "xs ! i = Some a" and "xs ! j = Some b"
  shows "a \<noteq> b"
  using assms
proof (induction xs arbitrary: i j)
  case Nil
  then show ?case by simp
next
  case (Cons x xs)
  from Cons.prems(2) obtain j' where j: "j = Suc j'" by (cases j) auto
  have tail: "distinct (List.map_filter (\<lambda>x. x) xs)"
    using Cons.prems(1) by (cases x) (simp_all add: List.map_filter_simps)
  show ?case
  proof (cases i)
    case 0
    with Cons.prems(4) have x: "x = Some a" by simp
    have "b \<in> set (List.map_filter (\<lambda>x. x) xs)"
      using Cons.prems(3,5) j by (intro map_filter_member [of j']) simp_all
    moreover have "a \<notin> set (List.map_filter (\<lambda>x. x) xs)"
      using Cons.prems(1) x by (simp add: List.map_filter_simps)
    ultimately show ?thesis by blast
  next
    case (Suc i')
    show ?thesis
      using Cons.IH [OF tail, of i' j'] Cons.prems(2-5) j Suc by simp
  qed
qed

lemma positions_freeD:
  assumes "positions_free ext items" and "j < length items"
    and "provider_ids ext items ! j = None"
  shows "show_nat j \<notin> set (supplied_ids ext items)"
proof -
  let ?xs = "provider_ids ext items"
  have len: "length ?xs = length items" by (simp add: provider_ids_def)
  have "(j, ?xs ! j) \<in> set (zip [0..<length items] ?xs)"
    using assms(2) len by (auto simp: in_set_zip intro!: exI [of _ j])
  with assms(1) have "?xs ! j = None \<longrightarrow> show_nat j \<notin> set (supplied_ids ext items)"
    by (auto simp: positions_free_def list_all_iff)
  with assms(3) show ?thesis by simp
qed

lemma posting_id_nth:
  assumes "normalize_all ext items [] = Inr ps" and "i < length items"
  shows "id_str (ps ! i)
           = (case provider_ids ext items ! i of Some s \<Rightarrow> s | None \<Rightarrow> show_nat i)"
proof -
  have "normalize_item ext (items ! i) i = Inr (ps ! i)"
    using normalize_all_order(2) [OF assms(1)] assms(2) by simp
  from normalize_id(1) [OF this] show ?thesis
    using assms(2) by (simp add: provider_ids_def split: option.splits)
qed

text \<open>
  Claim C4, as stated: the identifiers of one result set are pairwise different as long
  as the identifiers the provider supplies are. It fails on two items of which the first
  has the identifier \<open>''1''\<close> and the second has none: the second posting takes its
  position, 1, and both postings have the identifier \<open>''1''\<close>.
\<close>

theorem id_collision_counterexample:
  "map_sum id (map id_str) (normalize_all (provider_answering JNull) colliding_items [])
     = Inr [''1'', ''1'']
   \<and> provider_ids (provider_answering JNull) colliding_items = [Some ''1'', None]
   \<and> supplied_ids (provider_answering JNull) colliding_items = [''1'']"
proof -
  have run: "map_sum id (map id_str) (normalize_all (provider_answering JNull) colliding_items [])
          = Inr [''1'', ''1'']"
    by (simp add: colliding_items_postings bare_posting_def)
  have ids: "provider_ids (provider_answering JNull) colliding_items = [Some ''1'', None]"
    by (simp add: colliding_items_def provider_ids_def provider_ident_def bound_def py_or_def)
  have "supplied_ids (provider_answering JNull) colliding_items = [''1'']"
    by (simp add: supplied_ids_def ids List.map_filter_simps)
  with run ids show ?thesis by blast
qed

text \<open>
  Claim C4, amended: every posting of one result set has a non-empty identifier, and
  the identifiers are pairwise different when the identifiers the provider supplies are
  pairwise different and none of them is the decimal position of an item that has no
  identifier.
\<close>

theorem posting_ids_amended:
  assumes "normalize_all ext items [] = Inr ps"
  shows "(\<forall>p\<in>set ps. id_str p \<noteq> [])
       \<and> (distinct (supplied_ids ext items) \<and> positions_free ext items
            \<longrightarrow> distinct (map id_str ps))"
proof -
  have len: "length ps = length items"
    by (rule normalize_all_order(1) [OF assms])
  have nth: "normalize_item ext (items ! i) i = Inr (ps ! i)" if "i < length items" for i
    using normalize_all_order(2) [OF assms] that by simp
  have nonempty: "\<forall>p\<in>set ps. id_str p \<noteq> []"
  proof
    fix p assume "p \<in> set ps"
    then obtain i where "i < length ps" "ps ! i = p"
      by (auto simp: in_set_conv_nth)
    with len nth [of i] normalize_id(2) [of ext "items ! i" i p] show "id_str p \<noteq> []"
      by simp
  qed
  have "distinct (map id_str ps)"
    if d: "distinct (supplied_ids ext items)" and f: "positions_free ext items"
  proof -
    let ?xs = "provider_ids ext items"
    have xlen: "length ?xs = length items" by (simp add: provider_ids_def)
    have ne: "id_str (ps ! i) \<noteq> id_str (ps ! j)"
      if ij: "i < j" "j < length items" for i j
    proof -
      have i: "i < length items" using ij by simp
      note idi = posting_id_nth [OF assms i] and idj = posting_id_nth [OF assms ij(2)]
      show ?thesis
      proof (cases "?xs ! i")
        case None
        note Ni = this
        show ?thesis
        proof (cases "?xs ! j")
          case None
          with Ni idi idj ij(1) show ?thesis
            by (auto dest: show_nat_inj)
        next
          case (Some b)
          have "b \<in> set (supplied_ids ext items)"
            unfolding supplied_ids_def using ij(2) xlen Some
            by (intro map_filter_member [of j]) simp_all
          moreover have "show_nat i \<notin> set (supplied_ids ext items)"
            using f i Ni by (rule positions_freeD)
          ultimately show ?thesis using Ni Some idi idj by auto
        qed
      next
        case (Some a)
        note Si = this
        show ?thesis
        proof (cases "?xs ! j")
          case None
          have "a \<in> set (supplied_ids ext items)"
            unfolding supplied_ids_def using i xlen Si
            by (intro map_filter_member [of i]) simp_all
          moreover have "show_nat j \<notin> set (supplied_ids ext items)"
            using f ij(2) None by (rule positions_freeD)
          ultimately show ?thesis using Si None idi idj by auto
        next
          case (Some b)
          have "a \<noteq> b"
            using d ij xlen Si Some unfolding supplied_ids_def
            by (intro map_filter_distinct_nth [of ?xs i j]) simp_all
          with Si Some idi idj show ?thesis by simp
        qed
      qed
    qed
    show ?thesis
    proof (unfold distinct_conv_nth, intro allI impI)
      fix i j
      assume "i < length (map id_str ps)" "j < length (map id_str ps)" "i \<noteq> j"
      then have b: "i < length items" "j < length items" and "i < j \<or> j < i"
        using len by auto
      then show "map id_str ps ! i \<noteq> map id_str ps ! j"
        using ne [of i j] ne [of j i] len by auto
    qed
  qed
  with nonempty show ?thesis by blast
qed

theorem posting_ids_amended_witness:
  "normalize_all (provider_answering JNull) mixed_items []
     = Inr [bare_posting ''a1'' ''Untitled role'', bare_posting ''1'' ''Untitled role'',
            bare_posting ''c3'' ''Untitled role'']
   \<and> distinct (supplied_ids (provider_answering JNull) mixed_items)
   \<and> positions_free (provider_answering JNull) mixed_items
   \<and> id_str (bare_posting ''a1'' ''Untitled role'') \<noteq> []
   \<and> distinct (map id_str [bare_posting ''a1'' ''Untitled role'',
                            bare_posting ''1'' ''Untitled role'',
                            bare_posting ''c3'' ''Untitled role''])"
proof -
  let ?ext = "provider_answering JNull"
  have run: "normalize_all ?ext mixed_items []
     = Inr [bare_posting ''a1'' ''Untitled role'', bare_posting ''1'' ''Untitled role'',
            bare_posting ''c3'' ''Untitled role'']"
    by (rule mixed_items_postings)
  have ids: "provider_ids ?ext mixed_items = [Some ''a1'', None, Some ''c3'']"
    by (simp add: mixed_items_def provider_ids_def provider_ident_def bound_def py_or_def)
  have sup: "supplied_ids ?ext mixed_items = [''a1'', ''c3'']"
    by (simp add: supplied_ids_def ids List.map_filter_simps)
  have d: "distinct (supplied_ids ?ext mixed_items)"
    by (simp add: sup)
  have len: "[0..<length mixed_items] = [0, 1, 2]"
    by (simp add: mixed_items_def upt_conv_Cons)
  have f: "positions_free ?ext mixed_items"
    unfolding positions_free_def ids sup len
    by (simp add: show_nat.simps digit_char_def)
  have "id_str (bare_posting ''a1'' ''Untitled role'') \<noteq> []
      \<and> distinct (map id_str [bare_posting ''a1'' ''Untitled role'',
                               bare_posting ''1'' ''Untitled role'',
                               bare_posting ''c3'' ''Untitled role''])"
    using posting_ids_amended [OF run] d f by simp
  with run d f show ?thesis by blast
qed

section \<open>The tool adapter\<close>

lemma validate_int_outside:
  assumes "int_field_outside args key lo hi"
  shows "fst (validate_int ext args key dflt lo hi) \<noteq> []"
  using assms
  by (auto simp: int_field_outside_def validate_int_def split: option.splits json.splits)

lemma validate_int_within:
  assumes "int_field_within args key lo hi"
  shows "fst (validate_int ext args key dflt lo hi) = []"
  using assms
  by (auto simp: int_field_within_def validate_int_def split: option.splits json.splits)

lemma validate_search_term_used:
  "snd (snd (validate_search_term args)) \<in> {[], [''searchTerm''], [''search_term'']}"
  by (auto simp: validate_search_term_def split: option.splits json.splits)

lemma unknown_field_extra:
  assumes "unknown_field args"
  shows "filter (\<lambda>k. k \<notin> set (snd (snd (validate_search_term args)) @ [''limit'', ''page'']))
           (map fst args) \<noteq> []"
proof -
  from assms obtain k where k: "k \<in> set (map fst args)"
    and nk: "k \<notin> set [''searchTerm'', ''search_term'', ''limit'', ''page'']"
    by (auto simp: unknown_field_def list_ex_iff)
  have "k \<notin> set (snd (snd (validate_search_term args)) @ [''limit'', ''page''])"
    using nk validate_search_term_used [of args] by auto
  with k show ?thesis
    by (auto simp: filter_empty_conv)
qed

lemma search_term_typed_valid:
  assumes "search_term_typed args" and "map_of args ''search_term'' = None"
  shows "fst (validate_search_term args) = []"
    and "map_of args ''searchTerm'' \<noteq> None
           \<longrightarrow> snd (snd (validate_search_term args)) = [''searchTerm'']"
  using assms
  by (auto simp: search_term_typed_def validate_search_term_def split: option.splits json.splits)

lemma model_validate_errors:
  "model_validate ext args = Inl errs \<longleftrightarrow>
     errs \<noteq> [] \<and>
     errs = fst (validate_search_term args)
          @ fst (validate_int ext args ''limit'' DEFAULT_LIMIT 1 50)
          @ fst (validate_int ext args ''page'' DEFAULT_PAGE 0 50)
          @ map Extra_forbidden
              (filter (\<lambda>k. k \<notin> set (snd (snd (validate_search_term args)) @ [''limit'', ''page'']))
                 (map fst args))"
  unfolding model_validate_def Let_def
  by (auto simp: case_prod_beta)

lemma model_validate_ok:
  "(\<exists>payload. model_validate ext args = Inr payload) \<longleftrightarrow>
     fst (validate_search_term args) = []
     \<and> fst (validate_int ext args ''limit'' DEFAULT_LIMIT 1 50) = []
     \<and> fst (validate_int ext args ''page'' DEFAULT_PAGE 0 50) = []
     \<and> filter (\<lambda>k. k \<notin> set (snd (snd (validate_search_term args)) @ [''limit'', ''page'']))
          (map fst args) = []"
  unfolding model_validate_def Let_def
  by (auto simp: case_prod_beta)

lemma call_tool_request_invalid:
  assumes "name req = TOOL_NAME" and "model_validate ext (arguments_of req) = Inl errs"
  shows "call_tool_request ext req = ([], Inr (validation_error_result ext errs))"
  using assms
  unfolding call_tool_request_def arguments_of_def validation_error_result_def Let_def
  by simp

lemma call_tool_request_valid:
  assumes "name req = TOOL_NAME" and "model_validate ext (arguments_of req) = Inr payload"
  shows "call_tool_request ext req =
     (case request_jobs ext payload of
        Inl (RequestException msg) \<Rightarrow>
          ([request_of payload],
           Inr \<lparr>content = [TextContent (''Unable to fetch jobs from MyCareersFuture: '' @ msg)],
                structuredContent = None, isError = True\<rparr>)
      | Inl (Python e) \<Rightarrow> ([request_of payload], Inl e)
      | Inr result \<Rightarrow>
          ([request_of payload],
           Inr \<lparr>content = [EmbeddedResource (component_html ext),
                           TextContent (text_summary result)],
                structuredContent = Some result, isError = False\<rparr>))"
  using assms
  unfolding call_tool_request_def arguments_of_def Let_def
  by simp

lemma no_arguments: "arguments_of \<lparr>name = n, arguments = None\<rparr> = []"
  by (simp add: arguments_of_def)

lemma found_text:
  "text_summary \<lparr>search_term = ''software engineer'', total = 150,
       jobs = [bare_posting ''a1'' ''Engineer'', bare_posting ''b2'' ''Analyst'',
               bare_posting ''c3'' ''Untitled role'']\<rparr>
     = ''Found 150 jobs for 'software engineer'. Showing top 3 results in the carousel.''"
  by (simp add: text_summary_def text_eval)

subsection \<open>Unknown tools\<close>

text \<open>
  Claim C10: a request for a tool other than \<open>''mycf-job-list''\<close> is answered with an error
  result whose text is \<open>''Unknown tool: ''\<close> followed by the name; no request goes to the
  provider, and the arguments play no part in the answer.
\<close>

theorem unknown_tool:
  assumes "name req \<noteq> TOOL_NAME"
  shows "call_tool_request ext req
           = ([], Inr \<lparr>content = [TextContent (''Unknown tool: '' @ name req)],
                        structuredContent = None, isError = True\<rparr>)"
  using assms by (simp add: call_tool_request_def)

theorem unknown_tool_witness:
  "call_tool_request (provider_answering three_results)
      \<lparr>name = ''mycf-job-search'', arguments = Some [(''limit'', JInt 500)]\<rparr>
     = ([], Inr \<lparr>content = [TextContent ''Unknown tool: mycf-job-search''],
                  structuredContent = None, isError = True\<rparr>)"
proof -
  have "name \<lparr>name = ''mycf-job-search'', arguments = Some [(''limit'', JInt 500)]\<rparr> \<noteq> TOOL_NAME"
    by (simp add: TOOL_NAME_def)
  from unknown_tool [OF this, of "provider_answering three_results"] show ?thesis
    by simp
qed

subsection \<open>Validation of the arguments\<close>

text \<open>
  Claim C7: when \<^verbatim>\<open>limit\<close> is an integer outside 1 to 50, \<^verbatim>\<open>page\<close> an integer outside 0 to 50,
  or a key of the arguments is no field of the input, validation fails with a non-empty
  list of errors, the adapter answers with an error result carrying that list, and no
  request goes to the provider. Arguments with both integers inside their bounds, a
  search term that is missing, null or a string, and no other key pass validation.
\<close>

theorem validation_bounds:
  assumes "name req = TOOL_NAME"
  shows "(int_field_outside (arguments_of req) ''limit'' 1 50
          \<or> int_field_outside (arguments_of req) ''page'' 0 50
          \<or> unknown_field (arguments_of req)
          \<longrightarrow> (\<exists>errs. errs \<noteq> []
                \<and> model_validate ext (arguments_of req) = Inl errs
                \<and> call_tool_request ext req = ([], Inr (validation_error_result ext errs))))
       \<and> (int_field_within (arguments_of req) ''limit'' 1 50
          \<and> int_field_within (arguments_of req) ''page'' 0 50
          \<and> search_term_typed (arguments_of req)
          \<and> set (map fst (arguments_of req)) \<subseteq> {''searchTerm'', ''limit'', ''page''}
          \<longrightarrow> (\<exists>payload. model_validate ext (arguments_of req) = Inr payload))"
proof (intro conjI impI)
  let ?args = "arguments_of req"
  assume bad: "int_field_outside ?args ''limit'' 1 50
          \<or> int_field_outside ?args ''page'' 0 50 \<or> unknown_field ?args"
  let ?errs = "fst (validate_search_term ?args)
          @ fst (validate_int ext ?args ''limit'' DEFAULT_LIMIT 1 50)
          @ fst (validate_int ext ?args ''page'' DEFAULT_PAGE 0 50)
          @ map Extra_forbidden
              (filter (\<lambda>k. k \<notin> set (snd (snd (validate_search_term ?args)) @ [''limit'', ''page'']))
                 (map fst ?args))"
  have ne: "?errs \<noteq> []"
    using bad validate_int_outside [of ?args "''limit''" 1 50 ext DEFAULT_LIMIT]
      validate_int_outside [of ?args "''page''" 0 50 ext DEFAULT_PAGE]
      unknown_field_extra [of ?args]
    by auto
  then have v: "model_validate ext ?args = Inl ?errs"
    by (simp add: model_validate_errors)
  have c: "call_tool_request ext req = ([], Inr (validation_error_result ext ?errs))"
    using assms v by (rule call_tool_request_invalid)
  show "\<exists>errs. errs \<noteq> [] \<and> model_validate ext ?args = Inl errs
      \<and> call_tool_request ext req = ([], Inr (validation_error_result ext errs))"
    by (rule exI [of _ ?errs]) (intro conjI ne v c)
next
  let ?args = "arguments_of req"
  assume ok: "int_field_within ?args ''limit'' 1 50
          \<and> int_field_within ?args ''page'' 0 50
          \<and> search_term_typed ?args
          \<and> set (map fst ?args) \<subseteq> {''searchTerm'', ''limit'', ''page''}"
  have st: "fst (validate_search_term ?args) = []"
    and used: "map_of ?args ''searchTerm'' \<noteq> None
           \<longrightarrow> snd (snd (validate_search_term ?args)) = [''searchTerm'']"
  proof -
    have "''search_term'' \<notin> set (map fst ?args)"
      using ok by auto
    then have none: "map_of ?args ''search_term'' = None"
      by (simp add: map_of_eq_None_iff)
    show "fst (validate_search_term ?args) = []"
      using ok none search_term_typed_valid(1) [of ?args] by blast
    show "map_of ?args ''searchTerm'' \<noteq> None
           \<longrightarrow> snd (snd (validate_search_term ?args)) = [''searchTerm'']"
      using ok none search_term_typed_valid(2) [of ?args] by blast
  qed
  have "k \<in> set (snd (snd (validate_search_term ?args)) @ [''limit'', ''page''])"
    if k: "k \<in> set (map fst ?args)" for k
  proof -
    from k ok have "k = ''searchTerm'' \<or> k = ''limit'' \<or> k = ''page''" by auto
    moreover have "map_of ?args ''searchTerm'' \<noteq> None" if "k = ''searchTerm''"
      using k that by (simp add: map_of_eq_None_iff)
    ultimately show ?thesis using used by auto
  qed
  then have "filter (\<lambda>k. k \<notin> set (snd (snd (validate_search_term ?args)) @ [''limit'', ''page'']))
          (map fst ?args) = []"
    by (auto simp: filter_empty_conv)
  with st ok show "\<exists>payload. model_validate ext ?args = Inr payload"
    by (simp add: model_validate_ok validate_int_within)
qed

theorem validation_bounds_witness:
  "call_tool_request (provider_answering three_results)
      \<lparr>name = ''mycf-job-list'', arguments = Some [(''limit'', JInt 51)]\<rparr>
     = ([], Inr (validation_error_result (provider_answering three_results) [Too_large ''limit'']))
   \<and> call_tool_request (provider_answering three_results)
      \<lparr>name = ''mycf-job-list'', arguments = Some [(''page'', JInt 51)]\<rparr>
     = ([], Inr (validation_error_result (provider_answering three_results) [Too_large ''page'']))
   \<and> call_tool_request (provider_answering three_results)
      \<lparr>name = ''mycf-job-list'', arguments = Some [(''location'', JStr ''east'')]\<rparr>
     = ([], Inr (validation_error_result (provider_answering three_results)
                   [Extra_forbidden ''location'']))
   \<and> (\<exists>payload. model_validate (provider_answering three_results)
         [(''searchTerm'', JStr ''nurse''), (''limit'', JInt 50), (''page'', JInt 0)] = Inr payload)"
proof -
  let ?ext = "provider_answering three_results"
  have bad: "call_tool_request ?ext \<lparr>name = ''mycf-job-list'', arguments = Some args\<rparr>
           = ([], Inr (validation_error_result ?ext errs))"
    if o: "int_field_outside args ''limit'' 1 50 \<or> int_field_outside args ''page'' 0 50
           \<or> unknown_field args"
      and e: "model_validate ?ext args = Inl errs" for args errs
  proof -
    let ?req = "\<lparr>name = ''mycf-job-list'', arguments = Some args\<rparr>"
    have n: "name ?req = TOOL_NAME" by (simp add: TOOL_NAME_def)
    have a: "arguments_of ?req = args" by (simp add: arguments_of_def)
    from validation_bounds [OF n, of ?ext] o e show ?thesis
      unfolding a by auto
  qed
  have 1: "call_tool_request ?ext \<lparr>name = ''mycf-job-list'', arguments = Some [(''limit'', JInt 51)]\<rparr>
     = ([], Inr (validation_error_result ?ext [Too_large ''limit'']))"
  proof (rule bad)
    show "int_field_outside [(''limit'', JInt 51)] ''limit'' 1 50
        \<or> int_field_outside [(''limit'', JInt 51)] ''page'' 0 50
        \<or> unknown_field [(''limit'', JInt 51)]"
      by (simp add: int_field_outside_def)
    show "model_validate ?ext [(''limit'', JInt 51)] = Inl [Too_large ''limit'']"
      unfolding model_validate_def Let_def
      by (simp add: validate_search_term_def validate_int_def DEFAULT_LIMIT_def DEFAULT_PAGE_def)
  qed
  have 2: "call_tool_request ?ext \<lparr>name = ''mycf-job-list'', arguments = Some [(''page'', JInt 51)]\<rparr>
     = ([], Inr (validation_error_result ?ext [Too_large ''page'']))"
  proof (rule bad)
    show "int_field_outside [(''page'', JInt 51)] ''limit'' 1 50
        \<or> int_field_outside [(''page'', JInt 51)] ''page'' 0 50
        \<or> unknown_field [(''page'', JInt 51)]"
      by (simp add: int_field_outside_def)
    show "model_validate ?ext [(''page'', JInt 51)] = Inl [Too_large ''page'']"
      unfolding model_validate_def Let_def
      by (simp add: validate_search_term_def validate_int_def DEFAULT_LIMIT_def DEFAULT_PAGE_def)
  qed
  have 3: "call_tool_request ?ext
      \<lparr>name = ''mycf-job-list'', arguments = Some [(''location'', JStr ''east'')]\<rparr>
     = ([], Inr (validation_error_result ?ext [Extra_forbidden ''location'']))"
  proof (rule bad)
    show "int_field_outside [(''location'', JStr ''east'')] ''limit'' 1 50
        \<or> int_field_outside [(''location'', JStr ''east'')] ''page'' 0 50
        \<or> unknown_field [(''location'', JStr ''east'')]"
      by (simp add: unknown_field_def)
    show "model_validate ?ext [(''location'', JStr ''east'')] = Inl [Extra_forbidden ''location'']"
      unfolding model_validate_def Let_def
      by (simp add: validate_search_term_def validate_int_def DEFAULT_LIMIT_def DEFAULT_PAGE_def)
  qed
  let ?good = "[(''searchTerm'', JStr ''nurse''), (''limit'', JInt 50), (''page'', JInt 0)]"
  let ?req = "\<lparr>name = ''mycf-job-list'', arguments = Some ?good\<rparr>"
  have n: "name ?req = TOOL_NAME" by (simp add: TOOL_NAME_def)
  have a: "arguments_of ?req = ?good" by (simp add: arguments_of_def)
  have "int_field_within ?good ''limit'' 1 50 \<and> int_field_within ?good ''page'' 0 50
      \<and> search_term_typed ?good
      \<and> set (map fst ?good) \<subseteq> {''searchTerm'', ''limit'', ''page''}"
    by (simp add: int_field_within_def search_term_typed_def)
  with validation_bounds [OF n, of ?ext] have 4: "\<exists>payload. model_validate ?ext ?good = Inr payload"
    unfolding a by blast
  from 1 2 3 4 show ?thesis by blast
qed

subsection \<open>The summary\<close>

text \<open>
  Claim C6, as stated: the summary of a search with postings is
  \<^verbatim>\<open>Found N jobs for '<term>'. Showing top M results.\<close>. The text the code writes ends with
  \<^verbatim>\<open>results in the carousel.\<close>, and it writes the total with thousands separators.
\<close>

theorem summary_text_counterexample:
  "call_tool_request (provider_answering three_results)
      \<lparr>name = ''mycf-job-list'', arguments = None\<rparr>
     = ([request_of default_input],
        Inr \<lparr>content = [EmbeddedResource ''<html></html>'',
                        TextContent ''Found 150 jobs for 'software engineer'. Showing top 3 results in the carousel.''],
             structuredContent =
               Some \<lparr>search_term = ''software engineer'', total = 150,
                     jobs = [bare_posting ''a1'' ''Engineer'', bare_posting ''b2'' ''Analyst'',
                             bare_posting ''c3'' ''Untitled role'']\<rparr>,
             isError = False\<rparr>)
   \<and> ''Found 150 jobs for 'software engineer'. Showing top 3 results in the carousel.''
       \<noteq> ''Found 150 jobs for 'software engineer'. Showing top 3 results.''"
proof -
  let ?req = "\<lparr>name = ''mycf-job-list'', arguments = None\<rparr>"
  let ?ext = "provider_answering three_results"
  have n: "name ?req = TOOL_NAME" by (simp add: TOOL_NAME_def)
  have v: "model_validate ?ext (arguments_of ?req) = Inr default_input"
    by (simp add: no_arguments default_input_valid)
  have run: "request_jobs ?ext default_input = Inr \<lparr>search_term = ''software engineer'', total = 150,
       jobs = [bare_posting ''a1'' ''Engineer'', bare_posting ''b2'' ''Analyst'',
               bare_posting ''c3'' ''Untitled role'']\<rparr>"
    by (simp add: request_jobs_answering three_results_body effective_term_default lift_py_def)
  have html: "component_html ?ext = ''<html></html>''"
    by (simp add: provider_answering_def)
  show ?thesis
    unfolding call_tool_request_valid [OF n v] run html
    by (simp add: found_text)
qed

text \<open>
  Claim C6, amended: the summary of a search with postings is
  \<^verbatim>\<open>Found N jobs for '<term>'. Showing top M results in the carousel.\<close>, where N is the total
  with thousands separators (plain below 1000, \<^verbatim>\<open>1,500\<close> for 1500) and M the number of
  postings; the summary of a search without postings is
  \<^verbatim>\<open>No jobs found for '<term>'. Try a broader search.\<close>.
\<close>

theorem summary_text:
  assumes "name req = TOOL_NAME"
    and "model_validate ext (arguments_of req) = Inr payload"
    and "request_jobs ext payload = Inr result"
  shows "call_tool_request ext req
     = ([request_of payload],
        Inr \<lparr>content =
               [EmbeddedResource (component_html ext),
                TextContent
                  (if jobs result = []
                   then ''No jobs found for '' @ [CHR 0x27] @ search_term result @ [CHR 0x27]
                        @ ''. Try a broader search.''
                   else ''Found '' @ commas (total result) @ '' jobs for '' @ [CHR 0x27]
                        @ search_term result @ [CHR 0x27] @ ''. Showing top ''
                        @ show_nat (length (jobs result)) @ '' results in the carousel.'')],
             structuredContent = Some result, isError = False\<rparr>)
     \<and> (0 \<le> total result \<and> total result < 1000
          \<longrightarrow> commas (total result) = show_nat (nat (total result)))
     \<and> (1000 \<le> total result \<and> total result < 1000000
          \<longrightarrow> commas (total result)
              = show_nat (nat (total result) div 1000) @ '',''
                @ [digit_char (nat (total result) div 100 mod 10),
                   digit_char (nat (total result) div 10 mod 10),
                   digit_char (nat (total result) mod 10)])"
proof (intro conjI impI)
  show "call_tool_request ext req
     = ([request_of payload],
        Inr \<lparr>content =
               [EmbeddedResource (component_html ext),
                TextContent
                  (if jobs result = []
                   then ''No jobs found for '' @ [CHR 0x27] @ search_term result @ [CHR 0x27]
                        @ ''. Try a broader search.''
                   else ''Found '' @ commas (total result) @ '' jobs for '' @ [CHR 0x27]
                        @ search_term result @ [CHR 0x27] @ ''. Showing top ''
                        @ show_nat (length (jobs result)) @ '' results in the carousel.'')],
             structuredContent = Some result, isError = False\<rparr>)"
    unfolding call_tool_request_valid [OF assms(1,2)] assms(3)
    by (simp add: text_summary_def)
next
  assume a: "0 \<le> total result \<and> total result < 1000"
  then have "nat (total result) < 1000" by arith
  then have "commas_nat (nat (total result)) = show_nat (nat (total result))"
    by (rule commas_nat_small)
  with a show "commas (total result) = show_nat (nat (total result))"
    by (simp add: commas_def)
next
  assume a: "1000 \<le> total result \<and> total result < 1000000"
  then have 1: "1000 \<le> nat (total result)" by arith
  from a have "nat (total result) < 1000000" by arith
  then have 2: "nat (total result) div 1000 < 1000" by arith
  from a have "commas (total result) = commas_nat (nat (total result))"
    by (simp add: commas_def)
  also have "\<dots> = commas_nat (nat (total result) div 1000) @ '',''
                @ [digit_char (nat (total result) div 100 mod 10),
                   digit_char (nat (total result) div 10 mod 10),
                   digit_char (nat (total result) mod 10)]"
    using 1 by (rule commas_nat_thousands)
  also have "commas_nat (nat (total result) div 1000) = show_nat (nat (total result) div 1000)"
    using 2 by (rule commas_nat_small)
  finally show "commas (total result)
              = show_nat (nat (total result) div 1000) @ '',''
                @ [digit_char (nat (total result) div 100 mod 10),
                   digit_char (nat (total result) div 10 mod 10),
                   digit_char (nat (total result) mod 10)]" .
qed

theorem summary_text_witness:
  "call_tool_request (provider_answering (JObj [(''results'', JList [])]))
      \<lparr>name = ''mycf-job-list'', arguments = None\<rparr>
     = ([request_of default_input],
        Inr \<lparr>content = [EmbeddedResource ''<html></html>'',
                        TextContent ''No jobs found for 'software engineer'. Try a broader search.''],
             structuredContent =
               Some \<lparr>search_term = ''software engineer'', total = 0, jobs = []\<rparr>,
             isError = False\<rparr>)
   \<and> call_tool_request
        (provider_answering (JObj [(''results'', JList [JObj [(''uuid'', JStr ''a1'')]]),
                                   (''total'', JInt 1500)]))
        \<lparr>name = ''mycf-job-list'', arguments = None\<rparr>
     = ([request_of default_input],
        Inr \<lparr>content = [EmbeddedResource ''<html></html>'',
                        TextContent ''Found 1,500 jobs for 'software engineer'. Showing top 1 results in the carousel.''],
             structuredContent =
               Some \<lparr>search_term = ''software engineer'', total = 1500,
                     jobs = [bare_posting ''a1'' ''Untitled role'']\<rparr>,
             isError = False\<rparr>)"
proof -
  let ?req = "\<lparr>name = ''mycf-job-list'', arguments = None\<rparr>"
  let ?none = "provider_answering (JObj [(''results'', JList [])])"
  let ?some = "provider_answering (JObj [(''results'', JList [JObj [(''uuid'', JStr ''a1'')]]),
                                   (''total'', JInt 1500)])"
  let ?empty = "\<lparr>search_term = ''software engineer'', total = 0, jobs = []\<rparr>"
  let ?one = "\<lparr>search_term = ''software engineer'', total = 1500,
                jobs = [bare_posting ''a1'' ''Untitled role'']\<rparr>"
  have n: "name ?req = TOOL_NAME" by (simp add: TOOL_NAME_def)
  have v: "model_validate ext (arguments_of ?req) = Inr default_input" for ext
    by (simp add: no_arguments default_input_valid)
  have run_empty: "request_jobs ?none default_input = Inr ?empty"
    by (simp add: request_jobs_answering result_of_body_def Let_def py_or_def
        effective_term_default lift_py_def)
  have run_one: "request_jobs ?some default_input = Inr ?one"
    by (simp add: request_jobs_answering result_of_body_def item_eval
        effective_term_default lift_py_def)
  have html: "component_html (provider_answering data) = ''<html></html>''" for data
    by (simp add: provider_answering_def)
  have c: "commas 1500 = ''1,500''"
    by (simp add: text_eval)
  have s: "show_nat (Suc 0) = ''1''"
    by (simp add: text_eval)
  have 1: "call_tool_request ?none ?req
     = ([request_of default_input],
        Inr \<lparr>content = [EmbeddedResource ''<html></html>'',
                        TextContent ''No jobs found for 'software engineer'. Try a broader search.''],
             structuredContent = Some ?empty, isError = False\<rparr>)"
    using summary_text [OF n v run_empty] by (simp add: html)
  have 2: "call_tool_request ?some ?req
     = ([request_of default_input],
        Inr \<lparr>content = [EmbeddedResource ''<html></html>'',
                        TextContent ''Found 1,500 jobs for 'software engineer'. Showing top 1 results in the carousel.''],
             structuredContent = Some ?one, isError = False\<rparr>)"
    using summary_text [OF n v run_one] by (simp add: html c s)
  from 1 2 show ?thesis by (rule conjI)
qed

subsection \<open>Malformed values\<close>

text \<open>
  Claim C2: the formatter and the normalizer never raise, and the search call returns
  a result whatever the shape of the values. The code raises on a bound that is a string
  (the format \<^verbatim>\<open>,.0f\<close> does not apply to a string), on a salary record whose \<^verbatim>\<open>type\<close> is
  null, and on an item whose \<^verbatim>\<open>categories\<close> is null, where the search call ends with a
  \<^verbatim>\<open>TypeError\<close> and the adapter, which catches only the exceptions of the request, lets it
  escape.
\<close>

theorem malformed_values_raise:
  "format_salary ext (JObj [(''minimum'', JStr ''3000'')]) = Inl ValueError
   \<and> format_salary ext (JObj [(''minimum'', JInt 3000), (''type'', JNull)]) = Inl AttributeError
   \<and> call_tool_request (provider_answering null_categories)
        \<lparr>name = ''mycf-job-list'', arguments = None\<rparr>
      = ([request_of default_input], Inl TypeError)"
proof -
  let ?req = "\<lparr>name = ''mycf-job-list'', arguments = None\<rparr>"
  let ?ext = "provider_answering null_categories"
  have n: "name ?req = TOOL_NAME" by (simp add: TOOL_NAME_def)
  have v: "model_validate ?ext (arguments_of ?req) = Inr default_input"
    by (simp add: no_arguments default_input_valid)
  have run: "request_jobs ?ext default_input = Inl (Python TypeError)"
    by (simp add: request_jobs_answering null_categories_raises lift_py_def)
  have 1: "format_salary ext (JObj [(''minimum'', JStr ''3000'')]) = Inl ValueError"
    by (simp add: salary_eval)
  have 2: "format_salary ext (JObj [(''minimum'', JInt 3000), (''type'', JNull)]) = Inl AttributeError"
    by (simp add: salary_eval)
  have 3: "call_tool_request ?ext ?req = ([request_of default_input], Inl TypeError)"
    unfolding call_tool_request_valid [OF n v] run by simp
  from 1 2 3 show ?thesis by simp
qed

end
